theory Spec2Isabelle
  imports Complex_Main "HOL-Library.Sublist"
begin

section \<open>JavaScript values carried by stream events\<close>

text \<open>
  The fields of a parsed event payload are JSON values. Only their truthiness, their
  strict equality and whether they are strings matter to the client, so a number is
  kept as an integer (zero is the falsy one) and every object or array is \<open>Obj\<close>.
\<close>

datatype jsval = Undefined | Null | Bool bool | Num int | Str string | Obj

fun truthy :: "jsval \<Rightarrow> bool" where
  "truthy Undefined = False"
| "truthy Null = False"
| "truthy (Bool b) = b"
| "truthy (Num n) = (n \<noteq> 0)"
| "truthy (Str s) = (s \<noteq> [])"
| "truthy Obj = True"

record payload =
  complete :: jsval
  message :: jsval

text \<open>
  \<open>event.data\<close> of a server-sent event: text that \<open>JSON.parse\<close> rejects, the JSON
  value \<open>null\<close> (reading a property of it throws), or a value whose \<open>complete\<close>
  and \<open>message\<close> properties can be read (\<open>Undefined\<close> when absent).
\<close>

datatype sse_data = Malformed | NullData | Data payload

text \<open>
  What a callback can be handed as an error: an \<open>Error\<close> with its message, a
  \<open>TypeError\<close>, a \<open>SyntaxError\<close> (from \<open>JSON.parse\<close> or the \<open>EventSource\<close>
  constructor), or the \<open>error\<close> event object of an \<open>EventSource\<close>.
\<close>

datatype js_error = Error string | TypeError | SyntaxError | ErrorEvent

datatype callback = OnMessage payload | OnError js_error | OnComplete

section \<open>String helpers\<close>

text \<open>\<open>String.prototype.includes\<close>: the pattern occurs somewhere in the text.\<close>

fun str_includes :: "string \<Rightarrow> string \<Rightarrow> bool" where
  "str_includes [] p = (p = [])"
| "str_includes (c # cs) p = (prefix p (c # cs) \<or> str_includes cs p)"

text \<open>\<open>String.prototype.replace\<close> with a string pattern: the first occurrence only.\<close>

fun replace_first :: "string \<Rightarrow> string \<Rightarrow> string \<Rightarrow> string" where
  "replace_first p r [] = (if p = [] then r else [])"
| "replace_first p r (c # cs) =
     (if prefix p (c # cs) then r @ drop (length p) (c # cs)
      else c # replace_first p r cs)"

section \<open>The progress stream client (getProgressUpdates)\<close>

text \<open>
  What the handlers of a client read of the arguments of \<open>getProgressUpdates\<close>: the
  task identifier as a string and, for each callback, whether the caller passed one
  (every use is guarded by \<open>if (onX)\<close>). In the handlers a callback that is called is
  recorded in \<open>calls\<close> and returns normally. The arguments as the caller may pass
  them, and the exceptions they can cause while \<open>getProgressUpdates\<close> itself runs, are
  modelled by \<open>getProgressUpdates_call\<close> below.
\<close>

record config =
  taskId :: string
  hasOnMessage :: bool
  hasOnError :: bool
  hasOnComplete :: bool

text \<open>
  \<open>NewURL r\<close> stands for the string \<open>new URL(r, API_URL).toString()\<close>: the reference
  \<open>r\<close> resolved against the base of the build by the platform's URL parser (dot
  segments removed, characters percent-encoded, query and fragment split off). The
  parser is not modelled; a URL is kept as the reference it was made from.
\<close>

datatype url = NewURL string

text \<open>
  The closure state of one \<open>getProgressUpdates\<close> call. \<open>sources\<close> lists the URL of
  every \<open>EventSource\<close> object constructed so far; the object's identity is its index.
  \<open>live\<close> holds the objects whose \<open>readyState\<close> is not \<open>CLOSED\<close>. \<open>eventSource\<close> is the
  variable of that name (\<open>None\<close> for \<open>null\<close>). \<open>timers\<close> holds the delay of every
  pending \<open>setTimeout(connect, d)\<close>.
\<close>

record client =
  retryCount :: nat
  eventSource :: "nat option"
  sources :: "url list"
  live :: "nat set"
  timers :: "nat list"
  calls :: "callback list"

definition MAX_RETRIES :: nat where
  "MAX_RETRIES = 3"

text \<open>
  The stream URL \<open>new URL(`/api/progress/${taskId}`, API_URL)\<close>, for a task identifier
  already converted to a string. The reference starts with a slash and the base is a
  valid constant, so the parser accepts it whatever the identifier is.
\<close>

definition progress_url :: "string \<Rightarrow> url" where
  "progress_url tid = NewURL (''/api/progress/'' @ tid)"

definition lost_connection :: js_error where
  "lost_connection =
     Error ''Connection to progress updates was lost. Please check your network connection.''"

definition connect_failed :: js_error where
  "connect_failed =
     Error ''Failed to connect to progress updates. Please try refreshing the page.''"

definition initial :: client where
  "initial = \<lparr>retryCount = 0, eventSource = None, sources = [], live = {},
              timers = [], calls = []\<rparr>"

definition invoke :: "bool \<Rightarrow> callback \<Rightarrow> client \<Rightarrow> client" where
  "invoke given c s = (if given then s\<lparr>calls := calls s @ [c]\<rparr> else s)"

text \<open>\<open>eventSource.close()\<close> on the object the variable refers to.\<close>

definition close_current :: "client \<Rightarrow> client" where
  "close_current s =
     (case eventSource s of None \<Rightarrow> s | Some j \<Rightarrow> s\<lparr>live := live s - {j}\<rparr>)"

text \<open>
  \<open>connect\<close>: \<open>ok\<close> tells whether \<open>new EventSource(url)\<close> returns; when it throws,
  the variable keeps its old value and the catch block reports to \<open>onError\<close>.
\<close>

definition connect :: "config \<Rightarrow> bool \<Rightarrow> client \<Rightarrow> client" where
  "connect cfg ok s =
     (if ok then
        s\<lparr>eventSource := Some (length (sources s)),
          live := insert (length (sources s)) (live s),
          sources := sources s @ [progress_url (taskId cfg)]\<rparr>
      else invoke (hasOnError cfg) (OnError connect_failed) s)"

definition deliver :: "config \<Rightarrow> payload \<Rightarrow> client \<Rightarrow> client" where
  "deliver cfg p s = invoke (hasOnMessage cfg) (OnMessage p) (s\<lparr>retryCount := 0\<rparr>)"

definition onmessage :: "config \<Rightarrow> sse_data \<Rightarrow> client \<Rightarrow> client" where
  "onmessage cfg d s =
     (case d of
        Malformed \<Rightarrow> invoke (hasOnError cfg) (OnError SyntaxError) s
      | NullData \<Rightarrow> invoke (hasOnError cfg) (OnError TypeError) s
      | Data p \<Rightarrow>
          if truthy (complete p) then
            invoke (hasOnComplete cfg) OnComplete (close_current s)
          else if truthy (message p) then
            (case message p of
               Str m \<Rightarrow>
                 if prefix ''Error:'' m then
                   invoke (hasOnError cfg) (OnError (Error (replace_first ''Error: '' [] m))) s
                 else deliver cfg p s
             | _ \<Rightarrow> invoke (hasOnError cfg) (OnError TypeError) s)
          else deliver cfg p s)"

definition onerror :: "config \<Rightarrow> client \<Rightarrow> client" where
  "onerror cfg s =
     (let s1 = close_current s in
      if retryCount s1 < MAX_RETRIES then
        s1\<lparr>retryCount := retryCount s1 + 1, timers := timers s1 @ [1000]\<rparr>
      else invoke (hasOnError cfg) (OnError lost_connection) s1)"

definition onopen :: "client \<Rightarrow> client" where
  "onopen s = s\<lparr>retryCount := 0\<rparr>"

text \<open>The \<open>close\<close> method of the returned handle.\<close>

definition close :: "client \<Rightarrow> client" where
  "close s = close_current s"

text \<open>
  The client with which a call of \<open>getProgressUpdates\<close> returns: the closure state
  after the first \<open>connect()\<close>. Whether the call returns is \<open>getProgressUpdates_call\<close>.
\<close>

definition getProgressUpdates :: "config \<Rightarrow> bool \<Rightarrow> client" where
  "getProgressUpdates cfg ok = connect cfg ok initial"

text \<open>
  What the event loop can do to a client. An \<open>EventSource\<close> whose \<open>readyState\<close> is
  \<open>CLOSED\<close> dispatches no event, so an event of an object outside \<open>live\<close> reaches no
  handler. \<open>TimerFired ok\<close> runs the oldest pending \<open>setTimeout\<close> callback, with \<open>ok\<close>
  as in \<open>connect\<close>. \<open>CloseHandle\<close> is the caller's \<open>handle.close()\<close>.
\<close>

datatype event =
    Message nat sse_data
  | TransportError nat
  | Opened nat
  | TimerFired bool
  | CloseHandle

fun step :: "config \<Rightarrow> client \<Rightarrow> event \<Rightarrow> client" where
  "step cfg s (Message i d) = (if i \<in> live s then onmessage cfg d s else s)"
| "step cfg s (TransportError i) = (if i \<in> live s then onerror cfg s else s)"
| "step cfg s (Opened i) = (if i \<in> live s then onopen s else s)"
| "step cfg s (TimerFired ok) =
     (case timers s of [] \<Rightarrow> s | d # ds \<Rightarrow> connect cfg ok (s\<lparr>timers := ds\<rparr>))"
| "step cfg s CloseHandle = close s"

definition run :: "config \<Rightarrow> client \<Rightarrow> event list \<Rightarrow> client" where
  "run cfg s es = foldl (step cfg) s es"

text \<open>
  \<open>failures n i\<close>: \<open>n\<close> transport failures in a row, the first on object \<open>i\<close>, each
  followed by the retry timer firing and constructing the next object.
\<close>

fun failures :: "nat \<Rightarrow> nat \<Rightarrow> event list" where
  "failures 0 i = []"
| "failures (Suc n) i = TransportError i # TimerFired True # failures n (Suc i)"

subsection \<open>The earlier client (frontend/src/services/api.js)\<close>

text \<open>
  This \<open>getProgressUpdates\<close> constructs one \<open>EventSource\<close> and never reconnects.
  \<open>es_open\<close> is \<open>None\<close> when the constructor threw (the handle's \<open>close\<close> is then the
  dummy function), otherwise whether the object's \<open>readyState\<close> is not \<open>CLOSED\<close>.
  Its only object has index 0; timers do not exist.
\<close>

record client0 =
  es_open :: "bool option"
  calls0 :: "callback list"

definition invoke0 :: "bool \<Rightarrow> callback \<Rightarrow> client0 \<Rightarrow> client0" where
  "invoke0 given c s = (if given then s\<lparr>calls0 := calls0 s @ [c]\<rparr> else s)"

definition getProgressUpdates0 :: "config \<Rightarrow> bool \<Rightarrow> client0" where
  "getProgressUpdates0 cfg ok =
     (if ok then \<lparr>es_open = Some True, calls0 = []\<rparr>
      else invoke0 (hasOnError cfg) (OnError SyntaxError) \<lparr>es_open = None, calls0 = []\<rparr>)"

definition close0 :: "client0 \<Rightarrow> client0" where
  "close0 s = (case es_open s of None \<Rightarrow> s | Some b \<Rightarrow> s\<lparr>es_open := Some False\<rparr>)"

definition onmessage0 :: "config \<Rightarrow> sse_data \<Rightarrow> client0 \<Rightarrow> client0" where
  "onmessage0 cfg d s =
     (case d of
        Malformed \<Rightarrow> invoke0 (hasOnError cfg) (OnError SyntaxError) s
      | NullData \<Rightarrow> invoke0 (hasOnError cfg) (OnError TypeError) s
      | Data p \<Rightarrow>
          if truthy (complete p) then invoke0 (hasOnComplete cfg) OnComplete (close0 s)
          else invoke0 (hasOnMessage cfg) (OnMessage p) s)"

definition onerror0 :: "config \<Rightarrow> client0 \<Rightarrow> client0" where
  "onerror0 cfg s = invoke0 (hasOnError cfg) (OnError ErrorEvent) (close0 s)"

fun step0 :: "config \<Rightarrow> client0 \<Rightarrow> event \<Rightarrow> client0" where
  "step0 cfg s (Message i d) =
     (if i = 0 \<and> es_open s = Some True then onmessage0 cfg d s else s)"
| "step0 cfg s (TransportError i) =
     (if i = 0 \<and> es_open s = Some True then onerror0 cfg s else s)"
| "step0 cfg s (Opened i) = s"
| "step0 cfg s (TimerFired ok) = s"
| "step0 cfg s CloseHandle = close0 s"

definition run0 :: "config \<Rightarrow> client0 \<Rightarrow> event list \<Rightarrow> client0" where
  "run0 cfg s es = foldl (step0 cfg) s es"

subsection \<open>The call itself, with arguments that can throw\<close>

text \<open>
  An argument that is put into the template literal: a value with a string
  conversion (\<open>undefined\<close> gives \<open>undefined\<close>, a number its digits), or a value whose
  conversion throws (a \<open>Symbol\<close>, an object whose \<open>toString\<close> throws).
\<close>

datatype js_arg = Text string | Unconvertible js_error

text \<open>
  A callback argument: a falsy value (the guard \<open>if (onX)\<close> skips it), a truthy
  value that is not a function, a function that returns, or a function that throws.
\<close>

datatype handler = Absent | NotCallable | Returns | Throws js_error

fun given :: "handler \<Rightarrow> bool" where
  "given Absent = False"
| "given NotCallable = True"
| "given Returns = True"
| "given (Throws e) = True"

text \<open>The exception that the guarded call \<open>if (h) h(...)\<close> ends with, if any.\<close>

fun raises :: "handler \<Rightarrow> js_error option" where
  "raises Absent = None"
| "raises NotCallable = Some TypeError"
| "raises Returns = None"
| "raises (Throws e) = Some e"

definition config_of :: "string \<Rightarrow> handler \<Rightarrow> handler \<Rightarrow> handler \<Rightarrow> config" where
  "config_of tid onMessage onError onComplete =
     \<lparr>taskId = tid, hasOnMessage = given onMessage, hasOnError = given onError,
      hasOnComplete = given onComplete\<rparr>"

text \<open>
  \<open>getProgressUpdates(taskId, onMessage, onError, onComplete)\<close> as a call that returns
  a handle (\<open>Inr\<close>) or throws (\<open>Inl\<close>). \<open>new URL\<close> with the template literal comes
  before any \<open>try\<close>, so a failing string conversion leaves the function. \<open>connect()\<close>
  catches what \<open>new EventSource\<close> throws, but the call of \<open>onError\<close> in its catch block
  is not guarded by a \<open>try\<close>, and \<open>connect()\<close> is called outside any \<open>try\<close>. The other
  two callbacks are not called while the function runs.
\<close>

definition getProgressUpdates_call ::
  "js_arg \<Rightarrow> handler \<Rightarrow> handler \<Rightarrow> handler \<Rightarrow> bool \<Rightarrow> js_error + client" where
  "getProgressUpdates_call tid onMessage onError onComplete ok =
     (case tid of
        Unconvertible e \<Rightarrow> Inl e
      | Text t \<Rightarrow>
          if ok then Inr (getProgressUpdates (config_of t onMessage onError onComplete) True)
          else (case raises onError of
                  Some e \<Rightarrow> Inl e
                | None \<Rightarrow>
                    Inr (getProgressUpdates (config_of t onMessage onError onComplete) False)))"

text \<open>
  The earlier \<open>getProgressUpdates\<close> has the same shape: \<open>new URL\<close> before the \<open>try\<close>, and
  an unguarded \<open>if (onError) onError(initError)\<close> in the catch block.
\<close>

definition getProgressUpdates0_call ::
  "js_arg \<Rightarrow> handler \<Rightarrow> handler \<Rightarrow> handler \<Rightarrow> bool \<Rightarrow> js_error + client0" where
  "getProgressUpdates0_call tid onMessage onError onComplete ok =
     (case tid of
        Unconvertible e \<Rightarrow> Inl e
      | Text t \<Rightarrow>
          if ok then Inr (getProgressUpdates0 (config_of t onMessage onError onComplete) True)
          else (case raises onError of
                  Some e \<Rightarrow> Inl e
                | None \<Rightarrow>
                    Inr (getProgressUpdates0 (config_of t onMessage onError onComplete) False)))"

subsection \<open>Invariant of the reconnecting client\<close>

text \<open>
  The variable \<open>eventSource\<close> always refers to the object constructed last, no other
  object is open, a retry timer is pending only while no object is open, at most one
  is pending, and once \<open>onComplete\<close> has been called nothing is open or pending.
\<close>

definition stable :: "client \<Rightarrow> bool" where
  "stable s \<longleftrightarrow>
     (case eventSource s of
        None \<Rightarrow> sources s = [] \<and> live s = {}
      | Some j \<Rightarrow> Suc j = length (sources s) \<and> live s \<subseteq> {j}) \<and>
     (live s = {} \<or> timers s = []) \<and> length (timers s) \<le> 1 \<and>
     (OnComplete \<notin> set (calls s) \<or> live s = {} \<and> timers s = [])"

text \<open>Concrete inputs used to run the models.\<close>

definition cfg_all :: config where
  "cfg_all = \<lparr>taskId = ''t1'', hasOnMessage = True, hasOnError = True, hasOnComplete = True\<rparr>"

definition progress_msg :: "string \<Rightarrow> payload" where
  "progress_msg m = \<lparr>complete = Undefined, message = Str m\<rparr>"

definition complete_msg :: payload where
  "complete_msg = \<lparr>complete = Bool True, message = Undefined\<rparr>"

text \<open>
  The event sequence fail, fail, succeed, fail, fail, fail: every failure but the last
  is followed by its retry timer firing; the success is a progress message delivered
  on the third object.
\<close>

definition until_reset :: "event list" where
  "until_reset =
     [TransportError 0, TimerFired True, TransportError 1, TimerFired True,
      Message 2 (Data (progress_msg ''working''))]"

definition fail_fail_succeed_fail_fail_fail :: "event list" where
  "fail_fail_succeed_fail_fail_fail =
     until_reset @
     [TransportError 2, TimerFired True, TransportError 3, TimerFired True,
      TransportError 4]"

section \<open>The generator page's progress state (GeneratorPage.js)\<close>

text \<open>
  Strict equality \<open>===\<close> on payload fields. Every event is parsed on its own, so two
  objects coming from different events are never the same object.
\<close>

definition strict_eq :: "jsval \<Rightarrow> jsval \<Rightarrow> bool" where
  "strict_eq a b \<longleftrightarrow> a = b \<and> a \<noteq> Obj"

text \<open>
  The two pieces of React state: \<open>progressUpdates\<close> (initially \<open>[]\<close>) and
  \<open>progressPercentage\<close> (initially \<open>null\<close>).
\<close>

record page =
  progressUpdates :: "payload list"
  progressPercentage :: "rat option"

text \<open>The updater function handed to \<open>setProgressUpdates\<close>.\<close>

definition appendUpdate :: "payload list \<Rightarrow> payload \<Rightarrow> payload list" where
  "appendUpdate prevUpdates d =
     (if prevUpdates = [] \<or> \<not> strict_eq (message (last prevUpdates)) (message d)
      then prevUpdates @ [d] else prevUpdates)"

text \<open>
  \<open>lastMessage.match(/batch (\d+) with/)\<close>: the leftmost place where \<open>batch\<close>, a space,
  a longest run of decimal digits (at least one) and \<open>with\<close> after a space follow each
  other; the result is the digit run, the capture group.
\<close>

definition digit :: "char \<Rightarrow> bool" where
  "digit c \<longleftrightarrow> c \<in> set ''0123456789''"

definition batch_at :: "string \<Rightarrow> string option" where
  "batch_at s =
     (if prefix ''batch '' s then
        (let r = drop 6 s; ds = takeWhile digit r in
         if ds \<noteq> [] \<and> prefix '' with'' (dropWhile digit r) then Some ds else None)
      else None)"

fun batchMatch :: "string \<Rightarrow> string option" where
  "batchMatch [] = None"
| "batchMatch (c # cs) =
     (case batch_at (c # cs) of Some ds \<Rightarrow> Some ds | None \<Rightarrow> batchMatch cs)"

text \<open>
  \<open>parseInt\<close> of a run of decimal digits. JavaScript rounds a value beyond \<open>2^53\<close> to
  a double; every such value is far above 10, where the result below is capped.
\<close>

definition parseInt :: "string \<Rightarrow> nat" where
  "parseInt ds = foldl (\<lambda>n c. 10 * n + (of_char c - 48)) 0 ds"

text \<open>
  \<open>calculateProgress\<close>. Reading \<open>includes\<close> of a last message that is not a string
  throws a \<open>TypeError\<close> (arrays, which do have \<open>includes\<close>, are not told apart from other
  objects here; no such message passes the reconnecting client). The arithmetic is
  exact: for a batch number below 10 the double \<open>30 * (N / 10)\<close> is the integer \<open>3N\<close>.
\<close>

definition calculateProgress :: "payload list \<Rightarrow> js_error + rat" where
  "calculateProgress updates =
     (if updates = [] then Inr 10
      else case message (last updates) of
        Str lastMessage \<Rightarrow>
          Inr (if str_includes lastMessage ''Generated'' \<and>
                  str_includes lastMessage ''search queries'' then 20
               else if str_includes lastMessage ''Executed'' \<and>
                  str_includes lastMessage ''web searches'' then 30
               else if str_includes lastMessage ''Created learning path with'' then 40
               else if str_includes lastMessage ''Planned'' \<and>
                  str_includes lastMessage ''submodules'' then 50
               else if str_includes lastMessage ''Organized'' \<and>
                  str_includes lastMessage ''submodules into'' then 60
               else if str_includes lastMessage ''Processing submodule batch'' then
                  (case batchMatch lastMessage of
                     Some ds \<Rightarrow> 60 + min (30 * (of_nat (parseInt ds) / 10)) 30
                   | None \<Rightarrow> 70)
               else if str_includes lastMessage ''Completed batch'' then 80
               else if str_includes lastMessage ''Finalized'' then 95
               else min (5 + of_nat (length updates) * 2) 90)
      | _ \<Rightarrow> Inl TypeError)"

text \<open>
  The \<open>onMessage\<close> callback that \<open>connectToProgressUpdates\<close> passes to
  \<open>getProgressUpdates\<close>. \<open>captured\<close> is the value of the constant \<open>progressUpdates\<close> in
  the render whose closure created the callback: \<open>calculateProgress\<close> is applied to it,
  not to the state the updater produces. The state update is queued before
  \<open>calculateProgress\<close> runs, so it takes place also when that throws; the exception
  (first component) propagates to the caller.
\<close>

definition progress_onMessage ::
  "payload list \<Rightarrow> payload \<Rightarrow> page \<Rightarrow> js_error option \<times> page" where
  "progress_onMessage captured d st =
     (let st1 = st\<lparr>progressUpdates := appendUpdate (progressUpdates st) d\<rparr> in
      case calculateProgress captured of
        Inl e \<Rightarrow> (Some e, st1)
      | Inr v \<Rightarrow> (None, st1\<lparr>progressPercentage := Some v\<rparr>))"

text \<open>
  \<open>handleSubmit\<close>, as far as the progress state goes: it resets the state and connects;
  the callback it creates captures the \<open>progressUpdates\<close> of the render it runs in.
\<close>

definition handleSubmit :: "page \<Rightarrow> payload list \<times> page" where
  "handleSubmit st = (progressUpdates st, st\<lparr>progressUpdates := [], progressPercentage := Some 10\<rparr>)"

definition initial_page :: page where
  "initial_page = \<lparr>progressUpdates = [], progressPercentage = None\<rparr>"

text \<open>The page state after the client has made the callback invocations \<open>cs\<close>.\<close>

fun page_after :: "payload list \<Rightarrow> page \<Rightarrow> callback list \<Rightarrow> page" where
  "page_after captured st [] = st"
| "page_after captured st (OnMessage d # cs) =
     page_after captured (snd (progress_onMessage captured d st)) cs"
| "page_after captured st (c # cs) = page_after captured st cs"

text \<open>Two consecutive entries never carry strictly equal messages.\<close>

definition no_repeat :: "payload list \<Rightarrow> bool" where
  "no_repeat us = successively (\<lambda>a b. \<not> strict_eq (message a) (message b)) us"

section \<open>The API module's shared state (auth token, refresh queue, storage)\<close>

text \<open>
  HTTP calls the module makes. A request is named by its position in \<open>requests\<close>, the
  log of all calls; \<open>Replay r tok\<close> is \<open>axios(originalRequest)\<close> for request \<open>r\<close> with the
  header \<open>Authorization: Bearer tok\<close>.
\<close>

record learning_path =
  topic :: "string option"
  document :: string

record create_body =
  body_topic :: string
  path_data :: learning_path
  favorite :: bool
  tags :: "string list"
  source :: string

datatype http_call =
    PostRefresh
  | Replay nat string
  | GetLearningPaths string "string option" "string option"
  | GetLearningPath string
  | PostLearningPath create_body
  | PutLearningPath string string
  | DeleteLearningPath string

text \<open>
  The request URL, as far as the interceptor's test \<open>url.includes('/auth/refresh')\<close>
  reads it: the query string of the list request is serialised by \<open>URLSearchParams\<close>,
  which percent-encodes every slash, and is left out.
\<close>

fun url_of :: "http_call \<Rightarrow> string" where
  "url_of PostRefresh = ''/auth/refresh''"
| "url_of (Replay r tok) = []"
| "url_of (GetLearningPaths sortBy src search) = ''/learning-paths?''"
| "url_of (GetLearningPath entryId) = ''/learning-paths/'' @ entryId"
| "url_of (PostLearningPath b) = ''/learning-paths''"
| "url_of (PutLearningPath entryId d) = ''/learning-paths/'' @ entryId"
| "url_of (DeleteLearningPath entryId) = ''/learning-paths/'' @ entryId"

text \<open>Calls of \<open>localHistoryService\<close>, which is not part of the sources at hand.\<close>

datatype local_op =
    LocalPreview string "string option" "string option"
  | LocalGet string
  | LocalSave learning_path string
  | LocalUpdate string string
  | LocalDelete string

record preview =
  entries :: "string list"
  total :: nat

text \<open>
  \<open>authToken\<close>, \<open>isRefreshingToken\<close> and \<open>refreshSubscribers\<close> are the module's variables
  (a subscriber callback is named by the request waiting on it). \<open>refreshing\<close> lists
  the requests whose \<open>refreshAuthToken\<close> call awaits its own \<open>POST /auth/refresh\<close>,
  \<open>retried\<close> the requests whose \<open>_retry\<close> flag is set, \<open>rejected\<close> the requests whose
  promise was rejected. \<open>authItem\<close> is the access token inside the \<open>localStorage\<close> item
  \<open>auth\<close> (\<open>None\<close>: no item), \<open>redirected\<close> whether \<open>window.location\<close> was sent to the
  login page. \<open>sessionStorage\<close> maps a preview cache key to the stored payload and
  timestamp. \<open>local_calls\<close> logs the calls of \<open>localHistoryService\<close>.
\<close>

record api =
  authToken :: "string option"
  isRefreshingToken :: bool
  refreshSubscribers :: "nat list"
  refreshing :: "nat list"
  retried :: "nat set"
  rejected :: "nat list"
  requests :: "http_call list"
  authItem :: "string option"
  redirected :: bool
  sessionStorage :: "string \<rightharpoonup> preview \<times> int"
  local_calls :: "local_op list"

text \<open>\<open>if (authToken)\<close>: neither \<open>null\<close> nor the empty string.\<close>

definition authenticated :: "api \<Rightarrow> bool" where
  "authenticated s = (case authToken s of None \<Rightarrow> False | Some t \<Rightarrow> t \<noteq> [])"

definition setAuthToken :: "string \<Rightarrow> api \<Rightarrow> api" where
  "setAuthToken tok s = s\<lparr>authToken := Some tok\<rparr>"

definition clearAuthToken :: "api \<Rightarrow> api" where
  "clearAuthToken s = s\<lparr>authToken := None\<rparr>"

subsection \<open>Response interceptor and refreshAuthToken\<close>

text \<open>
  \<open>refreshAuthToken\<close> up to its first suspension, called for request \<open>r\<close>: with a
  refresh in flight it subscribes; otherwise it sets the flag and posts the refresh.
\<close>

definition refreshAuthToken :: "nat \<Rightarrow> api \<Rightarrow> api" where
  "refreshAuthToken r s =
     (if isRefreshingToken s then s\<lparr>refreshSubscribers := refreshSubscribers s @ [r]\<rparr>
      else s\<lparr>isRefreshingToken := True, refreshing := refreshing s @ [r],
             requests := requests s @ [PostRefresh]\<rparr>)"

text \<open>The interceptor's error handler for a 401 response of request \<open>r\<close>.\<close>

definition on401 :: "nat \<Rightarrow> string \<Rightarrow> api \<Rightarrow> api" where
  "on401 r url s =
     (if r \<notin> retried s \<and> \<not> str_includes url ''/auth/refresh''
      then refreshAuthToken r (s\<lparr>retried := insert r (retried s)\<rparr>)
      else s\<lparr>rejected := rejected s @ [r]\<rparr>)"

text \<open>The interceptor's \<open>then\<close> branch: set the token, replay the request.\<close>

definition replay :: "string \<Rightarrow> nat \<Rightarrow> api \<Rightarrow> api" where
  "replay tok r s = setAuthToken tok (s\<lparr>requests := requests s @ [Replay r tok]\<rparr>)"

text \<open>The interceptor's \<open>catch\<close> branch: clear all auth state, reject the request.\<close>

definition give_up :: "nat \<Rightarrow> api \<Rightarrow> api" where
  "give_up r s =
     (clearAuthToken s)\<lparr>authItem := None, redirected := True, rejected := rejected s @ [r]\<rparr>"

text \<open>
  A subscriber callback and the interceptor branch it leads to: the waiting promise
  is resolved only with a truthy token, otherwise rejected.
\<close>

definition settle :: "string \<Rightarrow> nat \<Rightarrow> api \<Rightarrow> api" where
  "settle tok q s = (if tok \<noteq> [] then replay tok q s else give_up q s)"

text \<open>
  The rest of \<open>refreshAuthToken\<close> once its \<open>POST /auth/refresh\<close> has answered, followed
  by the promise reactions it triggers: the caller that posted the refresh first, then
  the subscribers in the order they subscribed.
\<close>

definition refresh_resolved :: "string \<Rightarrow> api \<Rightarrow> api" where
  "refresh_resolved tok s =
     (case refreshing s of
        [] \<Rightarrow> s
      | owner # rest \<Rightarrow>
          let subs = refreshSubscribers s;
              s1 = (setAuthToken tok s)
                     \<lparr>authItem := (case authItem s of None \<Rightarrow> None | Some a \<Rightarrow> Some tok),
                      refreshSubscribers := [], isRefreshingToken := False,
                      refreshing := rest\<rparr>
          in foldl (\<lambda>t q. settle tok q t) (replay tok owner s1) subs)"

definition refresh_rejected :: "api \<Rightarrow> api" where
  "refresh_rejected s =
     (case refreshing s of
        [] \<Rightarrow> s
      | owner # rest \<Rightarrow>
          foldl (\<lambda>t q. give_up q t)
            (s\<lparr>refreshSubscribers := [], isRefreshingToken := False, refreshing := rest\<rparr>)
            (owner # refreshSubscribers s))"

datatype auth_event = Unauthorized nat string | RefreshSucceeded string | RefreshFailed

fun auth_step :: "api \<Rightarrow> auth_event \<Rightarrow> api" where
  "auth_step s (Unauthorized r url) = on401 r url s"
| "auth_step s (RefreshSucceeded tok) = refresh_resolved tok s"
| "auth_step s RefreshFailed = refresh_rejected s"

definition idle :: "string option \<Rightarrow> api" where
  "idle tok = \<lparr>authToken = tok, isRefreshingToken = False, refreshSubscribers = [],
     refreshing = [], retried = {}, rejected = [], requests = [], authItem = tok,
     redirected = False, sessionStorage = Map.empty, local_calls = []\<rparr>"

subsection \<open>One awaited call through the axios instance\<close>

text \<open>
  How an awaited \<open>api\<close> call ends: with the response data, or with an error that
  carries the response status, or none when there was no response.
\<close>

datatype http_error = Status nat | NoResponse

datatype 'a reply = Resolved 'a | Rejected http_error

text \<open>
  What the server does to one call: its answer to the request; the answer to
  \<open>POST /auth/refresh\<close>, should the interceptor refresh the token (the access token,
  \<open>None\<close> when the refresh is refused); and its answer to the replayed request. The
  last two are read only when it comes to them.
\<close>

datatype 'a exchange =
  Exchange (answer: "'a reply") (refresh_answer: "string option") (replay_answer: "'a reply")

text \<open>Sending the request: it becomes the last entry of the log, which names it.\<close>

definition api_send :: "http_call \<Rightarrow> api \<Rightarrow> api" where
  "api_send c s = s\<lparr>requests := requests s @ [c]\<rparr>"

text \<open>
  The response interceptor on the answer to request \<open>r\<close> (the call \<open>c\<close>), in the module
  state \<open>s\<close> the answer finds. A success passes. An error other than 401 is rejected
  with its status, and so is a 401 of a request that was retried or is the refresh
  call. Otherwise \<open>refreshAuthToken().then(...).catch(...)\<close> runs: the \<open>catch\<close> is
  chained after the \<open>then\<close>, so a refused refresh, a subscription resolved without a
  token and a failed replay all end in it: auth state cleared, redirect, rejection
  with the original 401.
\<close>

definition api_settle :: "http_call \<Rightarrow> nat \<Rightarrow> 'a exchange \<Rightarrow> api \<Rightarrow> 'a reply \<times> api" where
  "api_settle c r x s =
     (case answer x of
        Resolved a \<Rightarrow> (Resolved a, s)
      | Rejected e \<Rightarrow>
          if e \<noteq> Status 401 then (Rejected e, s\<lparr>rejected := rejected s @ [r]\<rparr>)
          else if r \<in> retried s \<or> str_includes (url_of c) ''/auth/refresh''
          then (Rejected e, on401 r (url_of c) s)
          else
            (let waiting = isRefreshingToken s; s2 = on401 r (url_of c) s in
             case refresh_answer x of
               None \<Rightarrow> (Rejected (Status 401), refresh_rejected s2)
             | Some tok \<Rightarrow>
                 (let s3 = refresh_resolved tok s2 in
                  if waiting \<and> tok = [] then (Rejected (Status 401), s3)
                  else case replay_answer x of
                         Resolved a \<Rightarrow> (Resolved a, s3)
                       | Rejected e' \<Rightarrow> (Rejected (Status 401), give_up r s3))))"

text \<open>\<open>await api.get(...)\<close> and its like, with nothing else running in between.\<close>

definition api_call :: "http_call \<Rightarrow> 'a exchange \<Rightarrow> api \<Rightarrow> 'a reply \<times> api" where
  "api_call c x s = api_settle c (length (requests s)) x (api_send c s)"

subsection \<open>The history facade\<close>

text \<open>
  What a facade function hands to its caller: the value a \<open>localHistoryService\<close> call
  returned (such calls are taken to return), \<open>{success: true, entry_id: path_id}\<close>,
  \<open>{success: true}\<close>, a preview payload, \<open>{entry: response.data}\<close>, or an exception.
\<close>

datatype thrown = HttpError http_error | NotFound

datatype outcome =
    FromLocal local_op
  | Saved string
  | Succeeded
  | PreviewData preview
  | Entry string
  | Thrown thrown

definition call_local :: "local_op \<Rightarrow> api \<Rightarrow> outcome \<times> api" where
  "call_local op s = (FromLocal op, s\<lparr>local_calls := local_calls s @ [op]\<rparr>)"

text \<open>
  Every facade function is \<open>async\<close> with one \<open>await\<close>. It is modelled in two parts:
  \<open>f_start\<close> runs up to the \<open>await\<close> and yields the result, or \<open>None\<close> with the request
  sent; \<open>f_finish\<close> runs from the answer on, in the module state the answer finds
  (other calls may have run since the request was sent). \<open>f\<close> itself is the call with
  nothing in between.
\<close>

definition return_local :: "local_op \<Rightarrow> api \<Rightarrow> outcome option \<times> api" where
  "return_local op s = (Some (fst (call_local op s)), snd (call_local op s))"

definition uninterrupted ::
  "outcome option \<times> api \<Rightarrow> (api \<Rightarrow> outcome \<times> api) \<Rightarrow> outcome \<times> api" where
  "uninterrupted started finish =
     (case started of (Some out, s') \<Rightarrow> (out, s') | (None, s') \<Rightarrow> finish s')"

text \<open>\<open>v || d\<close> for a value that is \<open>null\<close> or a string.\<close>

definition or_else :: "string option \<Rightarrow> string \<Rightarrow> string" where
  "or_else v d = (case v of None \<Rightarrow> d | Some t \<Rightarrow> if t = [] then d else t)"

definition if_truthy :: "string option \<Rightarrow> string option" where
  "if_truthy v = (case v of None \<Rightarrow> None | Some t \<Rightarrow> if t = [] then None else Some t)"

definition auth_error :: "http_error \<Rightarrow> bool" where
  "auth_error e \<longleftrightarrow> e = Status 401 \<or> e = Status 403"

definition on_server_error :: "http_error \<Rightarrow> api \<Rightarrow> api" where
  "on_server_error e s = (if auth_error e then clearAuthToken s else s)"

definition new_entry :: "learning_path \<Rightarrow> string \<Rightarrow> create_body" where
  "new_entry learningPath src =
     \<lparr>body_topic = or_else (topic learningPath) ''Untitled'', path_data = learningPath,
      favorite = False, tags = [], source = src\<rparr>"

definition saveToHistory_start :: "learning_path \<Rightarrow> string \<Rightarrow> api \<Rightarrow> outcome option \<times> api" where
  "saveToHistory_start learningPath src s =
     (if authenticated s then (None, api_send (PostLearningPath (new_entry learningPath src)) s)
      else return_local (LocalSave learningPath src) s)"

definition saveToHistory_finish ::
  "learning_path \<Rightarrow> string \<Rightarrow> nat \<Rightarrow> string exchange \<Rightarrow> api \<Rightarrow> outcome \<times> api" where
  "saveToHistory_finish learningPath src r x s =
     (case api_settle (PostLearningPath (new_entry learningPath src)) r x s of
        (Resolved path_id, s') \<Rightarrow> (Saved path_id, s')
      | (Rejected e, s') \<Rightarrow> call_local (LocalSave learningPath src) s')"

definition saveToHistory ::
  "learning_path \<Rightarrow> string \<Rightarrow> string exchange \<Rightarrow> api \<Rightarrow> outcome \<times> api" where
  "saveToHistory learningPath src x s =
     uninterrupted (saveToHistory_start learningPath src s)
       (saveToHistory_finish learningPath src (length (requests s)) x)"

definition updateHistoryEntry_start :: "string \<Rightarrow> string \<Rightarrow> api \<Rightarrow> outcome option \<times> api" where
  "updateHistoryEntry_start entryId d s =
     (if authenticated s then (None, api_send (PutLearningPath entryId d) s)
      else return_local (LocalUpdate entryId d) s)"

definition updateHistoryEntry_finish ::
  "string \<Rightarrow> string \<Rightarrow> nat \<Rightarrow> unit exchange \<Rightarrow> api \<Rightarrow> outcome \<times> api" where
  "updateHistoryEntry_finish entryId d r x s =
     (case api_settle (PutLearningPath entryId d) r x s of
        (Resolved u, s') \<Rightarrow> (Succeeded, s')
      | (Rejected e, s') \<Rightarrow>
          if \<not> authenticated s' then call_local (LocalUpdate entryId d) s'
          else (Thrown (HttpError e), s'))"

definition updateHistoryEntry ::
  "string \<Rightarrow> string \<Rightarrow> unit exchange \<Rightarrow> api \<Rightarrow> outcome \<times> api" where
  "updateHistoryEntry entryId d x s =
     uninterrupted (updateHistoryEntry_start entryId d s)
       (updateHistoryEntry_finish entryId d (length (requests s)) x)"

definition deleteHistoryEntry_start :: "string \<Rightarrow> api \<Rightarrow> outcome option \<times> api" where
  "deleteHistoryEntry_start entryId s =
     (if authenticated s then (None, api_send (DeleteLearningPath entryId) s)
      else return_local (LocalDelete entryId) s)"

definition deleteHistoryEntry_finish ::
  "string \<Rightarrow> nat \<Rightarrow> unit exchange \<Rightarrow> api \<Rightarrow> outcome \<times> api" where
  "deleteHistoryEntry_finish entryId r x s =
     (case api_settle (DeleteLearningPath entryId) r x s of
        (Resolved u, s') \<Rightarrow> (Succeeded, s')
      | (Rejected e, s') \<Rightarrow>
          if \<not> authenticated s' then call_local (LocalDelete entryId) s'
          else (Thrown (HttpError e), s'))"

definition deleteHistoryEntry :: "string \<Rightarrow> unit exchange \<Rightarrow> api \<Rightarrow> outcome \<times> api" where
  "deleteHistoryEntry entryId x s =
     uninterrupted (deleteHistoryEntry_start entryId s)
       (deleteHistoryEntry_finish entryId (length (requests s)) x)"

text \<open>
  \<open>getHistoryEntry\<close>; \<open>found\<close> tells whether the local store's answer has a truthy
  \<open>entry\<close>.
\<close>

definition getHistoryEntry_start :: "string \<Rightarrow> api \<Rightarrow> outcome option \<times> api" where
  "getHistoryEntry_start entryId s =
     (if authenticated s then (None, api_send (GetLearningPath entryId) s)
      else return_local (LocalGet entryId) s)"

definition getHistoryEntry_finish ::
  "string \<Rightarrow> bool \<Rightarrow> nat \<Rightarrow> string exchange \<Rightarrow> api \<Rightarrow> outcome \<times> api" where
  "getHistoryEntry_finish entryId found r x s =
     (case api_settle (GetLearningPath entryId) r x s of
        (Resolved e, s') \<Rightarrow> (Entry e, s')
      | (Rejected e, s') \<Rightarrow>
          (let (localEntry, s2) = call_local (LocalGet entryId) (on_server_error e s')
           in if found then (localEntry, s2) else (Thrown NotFound, s2)))"

definition getHistoryEntry ::
  "string \<Rightarrow> bool \<Rightarrow> string exchange \<Rightarrow> api \<Rightarrow> outcome \<times> api" where
  "getHistoryEntry entryId found x s =
     uninterrupted (getHistoryEntry_start entryId s)
       (getHistoryEntry_finish entryId found (length (requests s)) x)"

definition cacheKey :: "string \<Rightarrow> string option \<Rightarrow> string option \<Rightarrow> string" where
  "cacheKey sortBy filterSource searchTerm =
     ''history_preview_'' @ sortBy @ ''_'' @ or_else filterSource ''null'' @ ''_'' @
     or_else searchTerm ''null''"

definition cacheTimeMs :: int where
  "cacheTimeMs = 60000"

text \<open>The cached payload, if there is one and it is younger than \<open>cacheTimeMs\<close>.\<close>

definition cached :: "string \<Rightarrow> int \<Rightarrow> api \<Rightarrow> preview option" where
  "cached key now s =
     (case sessionStorage s key of
        None \<Rightarrow> None
      | Some (d, timestamp) \<Rightarrow> if now - timestamp < cacheTimeMs then Some d else None)"

text \<open>The list request: \<open>source\<close> and \<open>search\<close> are appended only when truthy.\<close>

definition preview_request :: "string \<Rightarrow> string option \<Rightarrow> string option \<Rightarrow> http_call" where
  "preview_request sortBy filterSource searchTerm =
     GetLearningPaths sortBy (if_truthy filterSource) (if_truthy searchTerm)"

text \<open>
  \<open>getHistoryPreview\<close> up to its \<open>await\<close>: \<open>now1\<close> is the value of \<open>Date.now()\<close> when the
  cache is read.
\<close>

definition getHistoryPreview_start ::
  "string \<Rightarrow> string option \<Rightarrow> string option \<Rightarrow> int \<Rightarrow> api \<Rightarrow> outcome option \<times> api" where
  "getHistoryPreview_start sortBy filterSource searchTerm now1 s =
     (if \<not> authenticated s then return_local (LocalPreview sortBy filterSource searchTerm) s
      else case cached (cacheKey sortBy filterSource searchTerm) now1 s of
        Some d \<Rightarrow> (Some (PreviewData d), s)
      | None \<Rightarrow> (None, api_send (preview_request sortBy filterSource searchTerm) s))"

text \<open>
  \<open>getHistoryPreview\<close> from the answer on: \<open>now2\<close> is the value of \<open>Date.now()\<close> when the
  response is stored; \<open>canStore\<close> tells whether \<open>sessionStorage.setItem\<close> returns (it
  throws when the quota is exceeded, which is logged and ignored). A response without
  \<open>entries\<close> is \<open>None\<close>.
\<close>

definition getHistoryPreview_finish ::
  "string \<Rightarrow> string option \<Rightarrow> string option \<Rightarrow> nat \<Rightarrow> int \<Rightarrow> bool \<Rightarrow>
   preview option exchange \<Rightarrow> api \<Rightarrow> outcome \<times> api" where
  "getHistoryPreview_finish sortBy filterSource searchTerm r now2 canStore x s =
     (case api_settle (preview_request sortBy filterSource searchTerm) r x s of
        (Resolved None, s') \<Rightarrow> (PreviewData \<lparr>entries = [], total = 0\<rparr>, s')
      | (Resolved (Some d), s') \<Rightarrow>
          (PreviewData d,
           if canStore
           then s'\<lparr>sessionStorage := (sessionStorage s')
                     (cacheKey sortBy filterSource searchTerm \<mapsto> (d, now2))\<rparr>
           else s')
      | (Rejected e, s') \<Rightarrow>
          call_local (LocalPreview sortBy filterSource searchTerm) (on_server_error e s'))"

definition getHistoryPreview ::
  "string \<Rightarrow> string option \<Rightarrow> string option \<Rightarrow> int \<Rightarrow> int \<Rightarrow> bool \<Rightarrow>
   preview option exchange \<Rightarrow> api \<Rightarrow> outcome \<times> api" where
  "getHistoryPreview sortBy filterSource searchTerm now1 now2 canStore x s =
     uninterrupted (getHistoryPreview_start sortBy filterSource searchTerm now1 s)
       (getHistoryPreview_finish sortBy filterSource searchTerm (length (requests s)) now2
          canStore x)"

text \<open>
  A server that answers the request itself: with data, or with an error that is not
  a 401.
\<close>

definition answers :: "'a \<Rightarrow> 'a exchange" where
  "answers a = Exchange (Resolved a) None (Resolved a)"

definition fails :: "http_error \<Rightarrow> 'a exchange" where
  "fails e = Exchange (Rejected e) None (Rejected e)"

text \<open>
  A state with no refresh in flight in which request \<open>r\<close> was not retried: what a new
  request finds when no other call is under way.
\<close>

definition quiet :: "nat \<Rightarrow> api \<Rightarrow> bool" where
  "quiet r s \<longleftrightarrow> \<not> isRefreshingToken s \<and> refreshing s = [] \<and> refreshSubscribers s = [] \<and>
     r \<notin> retried s"

text \<open>Concrete inputs for the facade.\<close>

definition path0 :: learning_path where
  "path0 = \<lparr>topic = Some ''Rust'', document = ''{}''\<rparr>"

definition signed_in :: api where
  "signed_in = idle (Some ''tok'')"

definition preview0 :: preview where
  "preview0 = \<lparr>entries = [''p1'', ''p2''], total = 2\<rparr>"

text \<open>
  \<open>keeps s t\<close>: going from \<open>s\<close> to \<open>t\<close> made no local call, left the session storage
  alone and only added to the request log.
\<close>

definition keeps :: "api \<Rightarrow> api \<Rightarrow> bool" where
  "keeps s t \<longleftrightarrow> local_calls t = local_calls s \<and> sessionStorage t = sessionStorage s \<and>
     (\<exists>ys. requests t = requests s @ ys)"

definition cached_at :: "int \<Rightarrow> api" where
  "cached_at ts =
     signed_in\<lparr>sessionStorage := [cacheKey ''creation_date'' None None \<mapsto> (preview0, ts)]\<rparr>"

section \<open>Properties of the progress stream client\<close>

lemma stable_init: "stable (getProgressUpdates cfg ok)"
  by (simp add: stable_def getProgressUpdates_def connect_def initial_def invoke_def)

lemma stable_invoke: "stable s \<Longrightarrow> c \<noteq> OnComplete \<Longrightarrow> stable (invoke b c s)"
  by (simp add: stable_def invoke_def split: option.splits)

lemma stable_close_current: "stable s \<Longrightarrow> stable (close_current s)"
  by (auto simp: stable_def close_current_def split: option.splits)

lemma live_close_current: "stable s \<Longrightarrow> live (close_current s) = {}"
  by (auto simp: stable_def close_current_def split: option.splits)

lemma timers_close_current: "timers (close_current s) = timers s"
  by (simp add: close_current_def split: option.splits)

lemma calls_close_current: "calls (close_current s) = calls s"
  by (simp add: close_current_def split: option.splits)

lemma stable_onmessage: "stable s \<Longrightarrow> i \<in> live s \<Longrightarrow> stable (onmessage cfg d s)"
proof (cases d)
  case (Data p)
  assume I: "stable s" and L: "i \<in> live s"
  have T: "timers s = []" using I L by (auto simp: stable_def)
  have D: "stable (deliver cfg p s)"
    using I by (simp add: stable_def deliver_def invoke_def split: option.splits)
  have C: "stable (invoke (hasOnComplete cfg) OnComplete (close_current s))"
    using stable_close_current[OF I] live_close_current[OF I] T
    by (simp add: stable_def invoke_def timers_close_current split: option.splits)
  show ?thesis using I D C Data
    by (simp add: onmessage_def stable_invoke split: jsval.splits)
qed (simp_all add: onmessage_def stable_invoke)

lemma stable_onerror: "stable s \<Longrightarrow> i \<in> live s \<Longrightarrow> stable (onerror cfg s)"
proof -
  assume I: "stable s" and L: "i \<in> live s"
  have T: "timers s = []" "OnComplete \<notin> set (calls s)" using I L by (auto simp: stable_def)
  have "stable (close_current s)" "live (close_current s) = {}"
    using I by (simp_all add: stable_close_current live_close_current)
  then show ?thesis using T
    by (simp add: onerror_def Let_def stable_def invoke_def timers_close_current
        calls_close_current split: option.splits)
qed

lemma stable_onopen: "stable s \<Longrightarrow> stable (onopen s)"
  by (simp add: stable_def onopen_def split: option.splits)

lemma stable_timer: "stable s \<Longrightarrow> timers s = d # ds \<Longrightarrow> stable (connect cfg ok (s\<lparr>timers := ds\<rparr>))"
  by (auto simp: stable_def connect_def invoke_def split: option.splits)

lemma stable_step: "stable s \<Longrightarrow> stable (step cfg s e)"
proof (cases e)
  case (TimerFired ok)
  assume "stable s"
  then show ?thesis using TimerFired by (simp add: stable_timer split: list.splits)
qed (simp_all add: stable_onmessage stable_onerror stable_onopen close_def stable_close_current)

lemma stable_run: "stable s \<Longrightarrow> stable (run cfg s es)"
  unfolding run_def by (induction es arbitrary: s) (simp_all add: stable_step)

lemma stable_reachable: "stable (run cfg (getProgressUpdates cfg ok) es)"
  by (simp add: stable_run stable_init)

text \<open>With no object open and no timer pending, no event changes anything.\<close>

lemma quiet_step: "live s = {} \<Longrightarrow> timers s = [] \<Longrightarrow> step cfg s e = s"
  by (cases e) (simp_all add: close_def close_current_def split: option.splits)

lemma quiet_run: "live s = {} \<Longrightarrow> timers s = [] \<Longrightarrow> run cfg s es = s"
  unfolding run_def by (induction es) (simp_all add: quiet_step)

lemma live_current:
  assumes "stable s" "i \<in> live s"
  shows "eventSource s = Some i \<and> live s = {i} \<and> timers s = [] \<and>
         Suc i = length (sources s) \<and> OnComplete \<notin> set (calls s)"
  using assms by (auto simp: stable_def split: option.splits)

lemma quiet_step0: "es_open s \<noteq> Some True \<Longrightarrow> step0 cfg s e = s"
  by (cases e) (auto simp: close0_def split: option.splits)

lemma quiet_run0: "es_open s \<noteq> Some True \<Longrightarrow> run0 cfg s es = s"
  unfolding run0_def by (induction es) (simp_all add: quiet_step0)

lemma open0_no_complete:
  "es_open (run0 cfg (getProgressUpdates0 cfg ok) es) = Some True \<Longrightarrow>
   OnComplete \<notin> set (calls0 (run0 cfg (getProgressUpdates0 cfg ok) es))"
proof (induction es rule: rev_induct)
  case Nil
  then show ?case
    by (simp add: run0_def getProgressUpdates0_def invoke0_def split: if_splits)
next
  case (snoc e es)
  define s where "s = run0 cfg (getProgressUpdates0 cfg ok) es"
  have R: "run0 cfg (getProgressUpdates0 cfg ok) (es @ [e]) = step0 cfg s e"
    by (simp add: run0_def s_def)
  have O: "es_open (step0 cfg s e) = Some True" using snoc.prems R by simp
  have S: "es_open s = Some True"
  proof (rule ccontr)
    assume "es_open s \<noteq> Some True"
    then show False using O by (simp add: quiet_step0)
  qed
  then have N: "OnComplete \<notin> set (calls0 s)" using snoc.IH by (simp add: s_def)
  have "OnComplete \<notin> set (calls0 (step0 cfg s e))"
    using O S N
    by (cases e)
      (auto simp: onmessage0_def onerror0_def invoke0_def close0_def
        split: sse_data.splits if_splits)
  then show ?case using R by simp
qed

text \<open>
  C3. Once an event whose payload has a truthy \<open>complete\<close> is handled, the connection
  is closed and \<open>onComplete\<close> has been called exactly once; whatever events follow
  (also events of the closed object, timer ticks and \<open>handle.close()\<close>), no callback is
  called any more, no timer is pending and no further \<open>EventSource\<close> is constructed.
  This holds for the reconnecting client and for the earlier client alike.
\<close>

theorem complete_closes_stream_once:
  assumes "truthy (complete p)" and "hasOnComplete cfg"
  shows "(s = run cfg (getProgressUpdates cfg ok) before \<and> i \<in> live s \<longrightarrow>
           (let t = run cfg s (Message i (Data p) # after) in
              calls t = calls s @ [OnComplete] \<and> count_list (calls t) OnComplete = 1 \<and>
              live t = {} \<and> timers t = [] \<and> sources t = sources s \<and>
              retryCount t = retryCount s)) \<and>
         (s0 = run0 cfg (getProgressUpdates0 cfg ok) before \<and> es_open s0 = Some True \<longrightarrow>
           (let t0 = run0 cfg s0 (Message 0 (Data p) # after) in
              calls0 t0 = calls0 s0 @ [OnComplete] \<and> count_list (calls0 t0) OnComplete = 1 \<and>
              es_open t0 = Some False))"
proof (intro conjI impI)
  assume A: "s = run cfg (getProgressUpdates cfg ok) before \<and> i \<in> live s"
  have I: "stable s" using A by (simp add: stable_reachable)
  have Li: "i \<in> live s" using A by blast
  note L = live_current[OF I Li]
  define u where "u = step cfg s (Message i (Data p))"
  have u: "u = s\<lparr>live := {}, calls := calls s @ [OnComplete]\<rparr>"
    using assms L by (simp add: u_def onmessage_def invoke_def close_current_def)
  have "run cfg s (Message i (Data p) # after) = run cfg u after"
    by (simp add: run_def u_def)
  also have "\<dots> = u" using L by (intro quiet_run) (simp_all add: u)
  finally show "let t = run cfg s (Message i (Data p) # after) in
              calls t = calls s @ [OnComplete] \<and> count_list (calls t) OnComplete = 1 \<and>
              live t = {} \<and> timers t = [] \<and> sources t = sources s \<and>
              retryCount t = retryCount s"
    using L by (simp add: u count_list_0_iff)
next
  assume A: "s0 = run0 cfg (getProgressUpdates0 cfg ok) before \<and> es_open s0 = Some True"
  have N: "OnComplete \<notin> set (calls0 s0)" using A open0_no_complete by blast
  have O: "es_open s0 = Some True" using A by blast
  define u where "u = step0 cfg s0 (Message 0 (Data p))"
  have u: "u = s0\<lparr>es_open := Some False, calls0 := calls0 s0 @ [OnComplete]\<rparr>"
    using assms O by (simp add: u_def onmessage0_def invoke0_def close0_def)
  have "run0 cfg s0 (Message 0 (Data p) # after) = run0 cfg u after"
    by (simp add: run0_def u_def)
  also have "\<dots> = u" by (intro quiet_run0) (simp add: u)
  finally show "let t0 = run0 cfg s0 (Message 0 (Data p) # after) in
              calls0 t0 = calls0 s0 @ [OnComplete] \<and> count_list (calls0 t0) OnComplete = 1 \<and>
              es_open t0 = Some False"
    using N by (simp add: u count_list_0_iff)
qed

lemmas client_defs = getProgressUpdates_def connect_def initial_def invoke_def
  close_current_def deliver_def onmessage_def onerror_def onopen_def close_def
  MAX_RETRIES_def run_def progress_url_def

lemmas client0_defs = getProgressUpdates0_def invoke0_def close0_def onmessage0_def
  onerror0_def run0_def

lemmas input_defs = cfg_all_def progress_msg_def complete_msg_def

theorem complete_closes_stream_once_witness:
  "truthy (complete complete_msg) \<and> hasOnComplete cfg_all \<and>
   0 \<in> live (run cfg_all (getProgressUpdates cfg_all True) [Message 0 (Data (progress_msg ''a''))]) \<and>
   es_open (run0 cfg_all (getProgressUpdates0 cfg_all True) [Message 0 (Data (progress_msg ''a''))])
     = Some True \<and>
   calls (run cfg_all (run cfg_all (getProgressUpdates cfg_all True)
            [Message 0 (Data (progress_msg ''a''))])
          [Message 0 (Data complete_msg), Message 0 (Data (progress_msg ''b'')),
           TransportError 0, TimerFired True, CloseHandle])
     = [OnMessage (progress_msg ''a''), OnComplete] \<and>
   calls0 (run0 cfg_all (run0 cfg_all (getProgressUpdates0 cfg_all True)
            [Message 0 (Data (progress_msg ''a''))])
          [Message 0 (Data complete_msg), Message 0 (Data (progress_msg ''b'')),
           TransportError 0, TimerFired True, CloseHandle])
     = [OnMessage (progress_msg ''a''), OnComplete]"
  using complete_closes_stream_once [of complete_msg cfg_all
      "run cfg_all (getProgressUpdates cfg_all True) [Message 0 (Data (progress_msg ''a''))]"
      True "[Message 0 (Data (progress_msg ''a''))]" 0
      "[Message 0 (Data (progress_msg ''b'')), TransportError 0, TimerFired True, CloseHandle]"
      "run0 cfg_all (getProgressUpdates0 cfg_all True) [Message 0 (Data (progress_msg ''a''))]"]
  by (simp add: client_defs client0_defs input_defs)

lemma failure_round:
  assumes "stable s" "i \<in> live s" "retryCount s < 3"
  shows "step cfg s (TransportError i) =
           s\<lparr>live := {}, retryCount := Suc (retryCount s), timers := [1000]\<rparr>"
    and "run cfg s [TransportError i, TimerFired ok] =
           connect cfg ok (s\<lparr>live := {}, retryCount := Suc (retryCount s)\<rparr>)"
proof -
  note L = live_current[OF assms(1,2)]
  show A: "step cfg s (TransportError i) =
           s\<lparr>live := {}, retryCount := Suc (retryCount s), timers := [1000]\<rparr>"
    using L assms(3) by (simp add: onerror_def close_current_def MAX_RETRIES_def Let_def)
  show "run cfg s [TransportError i, TimerFired ok] =
           connect cfg ok (s\<lparr>live := {}, retryCount := Suc (retryCount s)\<rparr>)"
    unfolding run_def using L by (simp del: step.simps(2) add: A connect_def invoke_def)
qed

lemma failures_run:
  "stable s \<Longrightarrow> i \<in> live s \<Longrightarrow> retryCount s + n \<le> 3 \<Longrightarrow>
   stable (run cfg s (failures n i)) \<and> i + n \<in> live (run cfg s (failures n i)) \<and>
   retryCount (run cfg s (failures n i)) = retryCount s + n \<and>
   calls (run cfg s (failures n i)) = calls s \<and>
   length (sources (run cfg s (failures n i))) = length (sources s) + n"
proof (induction n arbitrary: s i)
  case 0
  then show ?case by (simp add: run_def)
next
  case (Suc n)
  define u where "u = run cfg s [TransportError i, TimerFired True]"
  have L: "Suc i = length (sources s)" using live_current[OF Suc.prems(1,2)] by simp
  have u: "u = connect cfg True (s\<lparr>live := {}, retryCount := Suc (retryCount s)\<rparr>)"
    unfolding u_def using Suc.prems by (intro failure_round(2)) simp_all
  have Iu: "stable u" unfolding u_def using Suc.prems(1) by (rule stable_run)
  have Lu: "Suc i \<in> live u" using L by (simp add: u connect_def)
  have Ru: "retryCount u = Suc (retryCount s)" "calls u = calls s"
    "length (sources u) = Suc (length (sources s))"
    by (simp_all add: u connect_def)
  have R: "run cfg s (failures (Suc n) i) = run cfg u (failures n (Suc i))"
    by (simp add: run_def u_def)
  have "retryCount u + n \<le> 3" using Suc.prems(3) Ru by simp
  from Suc.IH[OF Iu Lu this] show ?case unfolding R by (simp add: Ru)
qed

lemma run_append: "run cfg s (xs @ ys) = run cfg (run cfg s xs) ys"
  by (simp add: run_def)

lemma terminal_failure:
  assumes "stable s" "i \<in> live s" "retryCount s = 3"
  shows "run cfg s (TransportError i # after) =
           invoke (hasOnError cfg) (OnError lost_connection) (s\<lparr>live := {}\<rparr>)"
proof -
  note L = live_current[OF assms(1,2)]
  define u where "u = step cfg s (TransportError i)"
  have u: "u = invoke (hasOnError cfg) (OnError lost_connection) (s\<lparr>live := {}\<rparr>)"
    using L assms(3) by (simp add: u_def onerror_def close_current_def MAX_RETRIES_def Let_def)
  have "run cfg s (TransportError i # after) = run cfg u after"
    by (simp add: run_def u_def)
  also have "\<dots> = u" using L by (intro quiet_run) (simp_all add: u invoke_def)
  finally show ?thesis by (simp add: u)
qed

text \<open>
  C1 (amended). In any reachable state with an open connection: a transport error
  while \<open>retryCount < 3\<close> closes the connection, calls no callback and schedules one
  reconnect with a delay of 1000 ms; \<open>n\<close> failures in a row, each followed by its
  reconnect, raise \<open>retryCount\<close> by \<open>n\<close> as long as it stays at most 3; the failure
  that finds \<open>retryCount = 3\<close> (the fourth in a row after a reset) calls \<open>onError\<close> with
  the lost-connection error, and after it nothing is scheduled, opened or called
  whatever follows; an \<open>open\<close> event and a delivered progress message reset
  \<open>retryCount\<close> to 0.
\<close>

theorem retries_then_terminal_error:
  assumes "s = run cfg (getProgressUpdates cfg ok) before" and "i \<in> live s"
  shows "(retryCount s < 3 \<longrightarrow>
            step cfg s (TransportError i) =
              s\<lparr>live := {}, retryCount := Suc (retryCount s), timers := [1000]\<rparr>) \<and>
         (retryCount s + n \<le> 3 \<longrightarrow>
            (let t = run cfg s (failures n i) in
               retryCount t = retryCount s + n \<and> calls t = calls s \<and> live t = {i + n} \<and>
               timers t = [] \<and> length (sources t) = length (sources s) + n)) \<and>
         (retryCount s + n = 3 \<longrightarrow>
            (let t = run cfg s (failures n i @ TransportError (i + n) # after) in
               calls t = calls s @ (if hasOnError cfg then [OnError lost_connection] else []) \<and>
               live t = {} \<and> timers t = [] \<and>
               length (sources t) = length (sources s) + n)) \<and>
         retryCount (step cfg s (Opened i)) = 0 \<and>
         (\<not> truthy (complete p) \<and> message p = Str m \<and> \<not> prefix ''Error:'' m \<longrightarrow>
            retryCount (step cfg s (Message i (Data p))) = 0 \<and>
            calls (step cfg s (Message i (Data p))) =
              calls s @ (if hasOnMessage cfg then [OnMessage p] else []))"
proof -
  have I: "stable s" using assms(1) by (simp add: stable_reachable)
  note L = live_current[OF I assms(2)]
  have A: "retryCount s < 3 \<longrightarrow>
            step cfg s (TransportError i) =
              s\<lparr>live := {}, retryCount := Suc (retryCount s), timers := [1000]\<rparr>"
    using failure_round(1)[OF I assms(2)] by blast
  have B: "retryCount s + n \<le> 3 \<longrightarrow>
            (let t = run cfg s (failures n i) in
               retryCount t = retryCount s + n \<and> calls t = calls s \<and> live t = {i + n} \<and>
               timers t = [] \<and> length (sources t) = length (sources s) + n)"
  proof
    assume "retryCount s + n \<le> 3"
    from failures_run[OF I assms(2) this, of cfg]
    show "let t = run cfg s (failures n i) in
               retryCount t = retryCount s + n \<and> calls t = calls s \<and> live t = {i + n} \<and>
               timers t = [] \<and> length (sources t) = length (sources s) + n"
      using live_current[of "run cfg s (failures n i)" "i + n"] by (simp add: Let_def)
  qed
  have C: "retryCount s + n = 3 \<longrightarrow>
            (let t = run cfg s (failures n i @ TransportError (i + n) # after) in
               calls t = calls s @ (if hasOnError cfg then [OnError lost_connection] else []) \<and>
               live t = {} \<and> timers t = [] \<and>
               length (sources t) = length (sources s) + n)"
  proof
    assume N: "retryCount s + n = 3"
    then have "retryCount s + n \<le> 3" by simp
    note F = failures_run[OF I assms(2) this, of cfg]
    define u where "u = run cfg s (failures n i)"
    have Fu: "stable u" "i + n \<in> live u" "retryCount u = 3" "calls u = calls s"
      "length (sources u) = length (sources s) + n"
      using F N by (simp_all add: u_def)
    have Tu: "timers u = []" using live_current[OF Fu(1,2)] by simp
    have "run cfg s (failures n i @ TransportError (i + n) # after) =
          invoke (hasOnError cfg) (OnError lost_connection) (u\<lparr>live := {}\<rparr>)"
      unfolding run_append u_def[symmetric] by (rule terminal_failure[OF Fu(1,2,3)])
    then show "let t = run cfg s (failures n i @ TransportError (i + n) # after) in
               calls t = calls s @ (if hasOnError cfg then [OnError lost_connection] else []) \<and>
               live t = {} \<and> timers t = [] \<and>
               length (sources t) = length (sources s) + n"
      using Fu Tu by (simp add: invoke_def)
  qed
  have D: "retryCount (step cfg s (Opened i)) = 0"
    using assms(2) by (simp add: onopen_def)
  have E: "\<not> truthy (complete p) \<and> message p = Str m \<and> \<not> prefix ''Error:'' m \<longrightarrow>
            retryCount (step cfg s (Message i (Data p))) = 0 \<and>
            calls (step cfg s (Message i (Data p))) =
              calls s @ (if hasOnMessage cfg then [OnMessage p] else [])"
    using assms(2) by (simp add: onmessage_def deliver_def invoke_def)
  show ?thesis using A B C D E by blast
qed

theorem retries_then_terminal_error_witness:
  "2 \<in> live (run cfg_all (getProgressUpdates cfg_all True) until_reset) \<and>
   retryCount (run cfg_all (getProgressUpdates cfg_all True) until_reset) = 0 \<and>
   calls (run cfg_all (run cfg_all (getProgressUpdates cfg_all True) until_reset)
            (failures 3 2))
     = [OnMessage (progress_msg ''working'')] \<and>
   calls (run cfg_all (run cfg_all (getProgressUpdates cfg_all True) until_reset)
            (failures 3 2 @ TransportError (2 + 3) # [TimerFired True, Opened 5]))
     = [OnMessage (progress_msg ''working''), OnError lost_connection] \<and>
   length (sources (run cfg_all (run cfg_all (getProgressUpdates cfg_all True) until_reset)
            (failures 3 2 @ TransportError (2 + 3) # [TimerFired True, Opened 5]))) = 6"
  using retries_then_terminal_error [of
      "run cfg_all (getProgressUpdates cfg_all True) until_reset" cfg_all True until_reset 2 3
      "[TimerFired True, Opened 5]" "progress_msg ''working''" "''working''"]
  by (simp add: until_reset_def client_defs input_defs Let_def eval_nat_numeral)

text \<open>
  C1 as claimed fails: in fail, fail, succeed, fail, fail, fail the third failure after
  the reset calls no \<open>onError\<close>; it schedules another reconnect, which constructs a
  sixth \<open>EventSource\<close>.
\<close>

theorem third_failure_after_reset_not_terminal:
  "calls (run cfg_all (getProgressUpdates cfg_all True) fail_fail_succeed_fail_fail_fail)
     = [OnMessage (progress_msg ''working'')] \<and>
   timers (run cfg_all (getProgressUpdates cfg_all True) fail_fail_succeed_fail_fail_fail)
     = [1000] \<and>
   length (sources (run cfg_all (getProgressUpdates cfg_all True)
                      (fail_fail_succeed_fail_fail_fail @ [TimerFired True]))) = 6"
  by (simp add: fail_fail_succeed_fail_fail_fail_def until_reset_def client_defs input_defs)

text \<open>The handle's \<open>close\<close> calls no callback and is idempotent.\<close>

lemma close_idempotent: "close (close s) = close s"
  by (simp add: close_def close_current_def split: option.splits)

lemma close_calls: "calls (close s) = calls s \<and> timers (close s) = timers s"
  by (simp add: close_def close_current_def split: option.splits)

text \<open>With no retry timer pending, nothing happens after \<open>close\<close>.\<close>

lemma close_stops_without_timer:
  assumes "stable s" and "timers s = []"
  shows "run cfg (close s) es = close s"
proof -
  have "live (close s) = {}" using assms(1) by (simp add: close_def live_close_current)
  moreover have "timers (close s) = []" using assms(2) by (simp add: close_calls)
  ultimately show ?thesis by (rule quiet_run)
qed

text \<open>
  C4 fails on the code: \<open>close\<close> closes the current \<open>EventSource\<close> but leaves a pending
  retry timer running. After fail, \<open>close()\<close> the timer is still pending; when it
  fires, a second \<open>EventSource\<close> is opened and its message reaches \<open>onMessage\<close>.
\<close>

theorem close_leaves_retry_timer_pending:
  "timers (run cfg_all (getProgressUpdates cfg_all True) [TransportError 0, CloseHandle])
     = [1000] \<and>
   live (run cfg_all (getProgressUpdates cfg_all True)
           [TransportError 0, CloseHandle, TimerFired True]) = {1} \<and>
   calls (run cfg_all (getProgressUpdates cfg_all True)
           [TransportError 0, CloseHandle, TimerFired True,
            Message 1 (Data (progress_msg ''working''))])
     = [OnMessage (progress_msg ''working'')]"
  by (simp add: client_defs input_defs)

text \<open>
  C10 as claimed fails: \<open>getProgressUpdates\<close> throws for a task identifier whose
  string conversion throws, and when the \<open>EventSource\<close> constructor throws and the
  \<open>onError\<close> that is then called throws or is not a function. Both versions do.
\<close>

theorem getProgressUpdates_can_throw:
  "getProgressUpdates_call (Unconvertible TypeError) Returns Returns Returns True
     = Inl TypeError \<and>
   getProgressUpdates_call (Text ''t1'') Returns (Throws (Error ''boom'')) Returns False
     = Inl (Error ''boom'') \<and>
   getProgressUpdates_call (Text ''t1'') Returns NotCallable Returns False = Inl TypeError \<and>
   getProgressUpdates0_call (Unconvertible TypeError) Returns Returns Returns True
     = Inl TypeError \<and>
   getProgressUpdates0_call (Text ''t1'') Returns (Throws (Error ''boom'')) Returns False
     = Inl (Error ''boom'')"
  by (simp add: getProgressUpdates_call_def getProgressUpdates0_call_def)

text \<open>
  C10 (amended). For a task identifier that converts to a string, and an \<open>onError\<close>
  that is absent or a function that returns, \<open>getProgressUpdates\<close> returns a handle
  whatever the other two callbacks are; when the \<open>EventSource\<close> constructor returns,
  it does so whatever \<open>onError\<close> is. It throws exactly when the identifier's
  conversion throws, or the constructor throws and calling \<open>onError\<close> throws. On the
  returned handle: when the constructor returned, no callback has been called and the
  connection to the task's URL is open; when it threw, \<open>onError\<close> (if given) has been
  called once with the failure and \<open>close\<close> changes nothing; in both cases \<open>close\<close>
  calls no callback, schedules nothing and may be repeated. The same holds for the
  earlier version.
\<close>

theorem getProgressUpdates_returns:
  "config_of t onMessage onError onComplete =
     \<lparr>taskId = t, hasOnMessage = (onMessage \<noteq> Absent), hasOnError = (onError \<noteq> Absent),
      hasOnComplete = (onComplete \<noteq> Absent)\<rparr> \<and>
   (ok \<or> onError = Absent \<or> onError = Returns \<longrightarrow>
      getProgressUpdates_call (Text t) onMessage onError onComplete ok
        = Inr (getProgressUpdates (config_of t onMessage onError onComplete) ok) \<and>
      getProgressUpdates0_call (Text t) onMessage onError onComplete ok
        = Inr (getProgressUpdates0 (config_of t onMessage onError onComplete) ok)) \<and>
   ((\<exists>e. getProgressUpdates_call tid onMessage onError onComplete ok = Inl e) \<longleftrightarrow>
      (\<exists>e. tid = Unconvertible e) \<or>
      \<not> ok \<and> (onError = NotCallable \<or> (\<exists>e. onError = Throws e))) \<and>
   ((\<exists>e. getProgressUpdates0_call tid onMessage onError onComplete ok = Inl e) \<longleftrightarrow>
      (\<exists>e. tid = Unconvertible e) \<or>
      \<not> ok \<and> (onError = NotCallable \<or> (\<exists>e. onError = Throws e))) \<and>
   (let h = getProgressUpdates cfg ok in
      (if ok then calls h = [] \<and> eventSource h = Some 0 \<and> live h = {0} \<and>
                  sources h = [NewURL (''/api/progress/'' @ taskId cfg)]
       else calls h = (if hasOnError cfg then [OnError connect_failed] else []) \<and>
            sources h = [] \<and> live h = {} \<and> close h = h) \<and>
      timers h = [] \<and> calls (close h) = calls h \<and> timers (close h) = [] \<and>
      live (close h) = {} \<and> close (close h) = close h) \<and>
   (let h0 = getProgressUpdates0 cfg ok in
      (if ok then calls0 h0 = [] \<and> es_open h0 = Some True
       else calls0 h0 = (if hasOnError cfg then [OnError SyntaxError] else []) \<and>
            es_open h0 = None \<and> close0 h0 = h0) \<and>
      calls0 (close0 h0) = calls0 h0 \<and> es_open (close0 h0) \<noteq> Some True \<and>
      close0 (close0 h0) = close0 h0)"
proof (intro conjI)
  have G: "given h = (h \<noteq> Absent)" for h by (cases h) simp_all
  show "config_of t onMessage onError onComplete =
     \<lparr>taskId = t, hasOnMessage = (onMessage \<noteq> Absent), hasOnError = (onError \<noteq> Absent),
      hasOnComplete = (onComplete \<noteq> Absent)\<rparr>"
    by (simp add: config_of_def G)
  show "ok \<or> onError = Absent \<or> onError = Returns \<longrightarrow>
      getProgressUpdates_call (Text t) onMessage onError onComplete ok
        = Inr (getProgressUpdates (config_of t onMessage onError onComplete) ok) \<and>
      getProgressUpdates0_call (Text t) onMessage onError onComplete ok
        = Inr (getProgressUpdates0 (config_of t onMessage onError onComplete) ok)"
    by (auto simp: getProgressUpdates_call_def getProgressUpdates0_call_def)
  show "(\<exists>e. getProgressUpdates_call tid onMessage onError onComplete ok = Inl e) \<longleftrightarrow>
      (\<exists>e. tid = Unconvertible e) \<or>
      \<not> ok \<and> (onError = NotCallable \<or> (\<exists>e. onError = Throws e))"
    by (cases tid; cases onError) (auto simp: getProgressUpdates_call_def)
  show "(\<exists>e. getProgressUpdates0_call tid onMessage onError onComplete ok = Inl e) \<longleftrightarrow>
      (\<exists>e. tid = Unconvertible e) \<or>
      \<not> ok \<and> (onError = NotCallable \<or> (\<exists>e. onError = Throws e))"
    by (cases tid; cases onError) (auto simp: getProgressUpdates0_call_def)
  show "let h = getProgressUpdates cfg ok in
      (if ok then calls h = [] \<and> eventSource h = Some 0 \<and> live h = {0} \<and>
                  sources h = [NewURL (''/api/progress/'' @ taskId cfg)]
       else calls h = (if hasOnError cfg then [OnError connect_failed] else []) \<and>
            sources h = [] \<and> live h = {} \<and> close h = h) \<and>
      timers h = [] \<and> calls (close h) = calls h \<and> timers (close h) = [] \<and>
      live (close h) = {} \<and> close (close h) = close h"
    by (simp add: getProgressUpdates_def connect_def initial_def invoke_def close_def
        close_current_def progress_url_def)
  show "let h0 = getProgressUpdates0 cfg ok in
      (if ok then calls0 h0 = [] \<and> es_open h0 = Some True
       else calls0 h0 = (if hasOnError cfg then [OnError SyntaxError] else []) \<and>
            es_open h0 = None \<and> close0 h0 = h0) \<and>
      calls0 (close0 h0) = calls0 h0 \<and> es_open (close0 h0) \<noteq> Some True \<and>
      close0 (close0 h0) = close0 h0"
    by (simp add: getProgressUpdates0_def invoke0_def close0_def)
qed

theorem getProgressUpdates_returns_witness:
  "getProgressUpdates_call (Text ''t1'') Returns Returns Returns False
     = Inr (getProgressUpdates cfg_all False) \<and>
   getProgressUpdates_call (Text ''t1'') NotCallable (Throws TypeError) Absent True
     = Inr (getProgressUpdates (config_of ''t1'' NotCallable (Throws TypeError) Absent) True) \<and>
   calls (getProgressUpdates cfg_all False) = [OnError connect_failed] \<and>
   close (getProgressUpdates cfg_all False) = getProgressUpdates cfg_all False \<and>
   calls0 (getProgressUpdates0 cfg_all False) = [OnError SyntaxError] \<and>
   sources (getProgressUpdates cfg_all True) = [NewURL ''/api/progress/t1''] \<and>
   live (close (getProgressUpdates cfg_all True)) = {}"
  using getProgressUpdates_returns [where ok = False and onError = Returns and t = "''t1''"
      and onMessage = Returns and onComplete = Returns and cfg = cfg_all]
    getProgressUpdates_returns [where ok = True and onError = "Throws TypeError"
      and t = "''t1''" and onMessage = NotCallable and onComplete = Absent and cfg = cfg_all]
  by (simp add: cfg_all_def config_of_def Let_def)

section \<open>Properties of the generator page's progress state\<close>

lemma no_repeat_appendUpdate: "no_repeat us \<Longrightarrow> no_repeat (appendUpdate us d)"
  by (auto simp: no_repeat_def appendUpdate_def successively_append_iff)

lemma no_repeat_foldl: "no_repeat us \<Longrightarrow> no_repeat (foldl appendUpdate us ds)"
  by (induction ds arbitrary: us) (simp_all add: no_repeat_appendUpdate)

lemma page_after_updates:
  "progressUpdates (page_after captured st cs) =
     foldl appendUpdate (progressUpdates st) [d. OnMessage d \<leftarrow> cs]"
  by (induction captured st cs rule: page_after.induct)
     (simp_all add: progress_onMessage_def Let_def split: sum.splits)

lemma remdups_adj_snoc:
  "remdups_adj (xs @ [x]) = (if xs \<noteq> [] \<and> last xs = x then remdups_adj xs else remdups_adj xs @ [x])"
  by (induction xs rule: remdups_adj.induct) (auto)

lemma last_remdups_adj: "xs \<noteq> [] \<Longrightarrow> last (remdups_adj xs) = last xs"
  by (induction xs rule: remdups_adj.induct) (auto)

lemma foldl_appendUpdate_text:
  "\<forall>d\<in>set ds. message d \<noteq> Obj \<Longrightarrow>
   map message (foldl appendUpdate [] ds) = remdups_adj (map message ds)"
proof (induction ds rule: rev_induct)
  case Nil
  then show ?case by simp
next
  case (snoc d ds)
  define us where "us = foldl appendUpdate [] ds"
  have IH: "map message us = remdups_adj (map message ds)"
    and O: "message d \<noteq> Obj" using snoc by (simp_all add: us_def)
  have S: "foldl appendUpdate [] (ds @ [d]) = appendUpdate us d" by (simp add: us_def)
  show ?case
  proof (cases "ds = []")
    case True
    then have "us = []" by (simp add: us_def)
    then show ?thesis unfolding S using True by (simp add: appendUpdate_def)
  next
    case False
    then have N: "us \<noteq> []" using IH by (metis Nil_is_map_conv remdups_adj_Nil_iff)
    have "message (last us) = last (map message us)" using N by (simp add: last_map)
    also have "\<dots> = message (last ds)" using False by (simp add: IH last_remdups_adj last_map)
    finally have L: "message (last us) = message (last ds)" .
    show ?thesis unfolding S using N L O False IH
      by (simp add: appendUpdate_def strict_eq_def remdups_adj_snoc last_map)
  qed
qed

text \<open>
  C2. Whatever payloads \<open>onMessage\<close> is called with, \<open>progressUpdates\<close> never holds two
  consecutive entries with strictly equal messages: the updater keeps that property,
  so it holds of the page state after every run of the stream client that follows a
  \<open>handleSubmit\<close>; a payload whose message equals the last recorded one leaves the list
  unchanged; and the recorded messages are the incoming ones with each run of
  repetitions collapsed to one entry.
\<close>

theorem progressUpdates_no_adjacent_duplicates:
  "(no_repeat us \<longrightarrow> no_repeat (foldl appendUpdate us ds)) \<and>
   no_repeat (progressUpdates (page_after captured (snd (handleSubmit st))
                (calls (run cfg (getProgressUpdates cfg ok) es)))) \<and>
   (us \<noteq> [] \<and> strict_eq (message (last us)) (message d) \<longrightarrow> appendUpdate us d = us) \<and>
   ((\<forall>d\<in>set ds. message d \<noteq> Obj) \<longrightarrow>
      map message (foldl appendUpdate [] ds) = remdups_adj (map message ds))"
proof (intro conjI impI)
  show "no_repeat (foldl appendUpdate us ds)" if "no_repeat us"
    using that by (rule no_repeat_foldl)
  have "no_repeat (progressUpdates (snd (handleSubmit st)))"
    by (simp add: handleSubmit_def no_repeat_def)
  then show "no_repeat (progressUpdates (page_after captured (snd (handleSubmit st))
                (calls (run cfg (getProgressUpdates cfg ok) es))))"
    unfolding page_after_updates by (rule no_repeat_foldl)
  show "appendUpdate us d = us" if "us \<noteq> [] \<and> strict_eq (message (last us)) (message d)"
    using that by (simp add: appendUpdate_def)
  show "map message (foldl appendUpdate [] ds) = remdups_adj (map message ds)"
    if "\<forall>d\<in>set ds. message d \<noteq> Obj"
    using that by (rule foldl_appendUpdate_text)
qed

theorem progressUpdates_no_adjacent_duplicates_witness:
  "no_repeat [] \<and>
   [progress_msg ''a''] \<noteq> [] \<and>
   strict_eq (message (last [progress_msg ''a''])) (message (progress_msg ''a'')) \<and>
   appendUpdate [progress_msg ''a''] (progress_msg ''a'') = [progress_msg ''a''] \<and>
   message (progress_msg ''a'') \<noteq> Obj \<and> message (progress_msg ''b'') \<noteq> Obj \<and>
   map message (foldl appendUpdate []
      [progress_msg ''a'', progress_msg ''a'', progress_msg ''b'', progress_msg ''b'',
       progress_msg ''a'']) = [Str ''a'', Str ''b'', Str ''a''] \<and>
   no_repeat (foldl appendUpdate []
      [progress_msg ''a'', progress_msg ''a'', progress_msg ''b'', progress_msg ''b'',
       progress_msg ''a''])"
  using progressUpdates_no_adjacent_duplicates [where us = "[]" and
      ds = "[progress_msg ''a'', progress_msg ''a'', progress_msg ''b'', progress_msg ''b'',
        progress_msg ''a'']"]
    progressUpdates_no_adjacent_duplicates [where us = "[progress_msg ''a'']" and
      d = "progress_msg ''a''"]
  by (simp add: no_repeat_def strict_eq_def progress_msg_def)

text \<open>What \<open>calculateProgress\<close> computes from a last message that is a string.\<close>

lemma calculateProgress_keywords:
  assumes "updates \<noteq> []" and "message (last updates) = Str m"
  shows "str_includes m ''Generated'' \<and> str_includes m ''search queries'' \<Longrightarrow>
           calculateProgress updates = Inr 20"
    and "\<not> (str_includes m ''Generated'' \<and> str_includes m ''search queries'') \<Longrightarrow>
         str_includes m ''Executed'' \<and> str_includes m ''web searches'' \<Longrightarrow>
           calculateProgress updates = Inr 30"
    and "\<not> (str_includes m ''Generated'' \<and> str_includes m ''search queries'') \<Longrightarrow>
         \<not> (str_includes m ''Executed'' \<and> str_includes m ''web searches'') \<Longrightarrow>
         \<not> str_includes m ''Created learning path with'' \<Longrightarrow>
         \<not> (str_includes m ''Planned'' \<and> str_includes m ''submodules'') \<Longrightarrow>
         \<not> (str_includes m ''Organized'' \<and> str_includes m ''submodules into'') \<Longrightarrow>
         \<not> str_includes m ''Processing submodule batch'' \<Longrightarrow>
         \<not> str_includes m ''Completed batch'' \<Longrightarrow>
         \<not> str_includes m ''Finalized'' \<Longrightarrow>
           calculateProgress updates = Inr (min (5 + of_nat (length updates) * 2) 90)"
  using assms by (auto simp add: calculateProgress_def)

lemma calculateProgress_batch:
  assumes "updates \<noteq> []" and "message (last updates) = Str m"
    and "\<not> (str_includes m ''Generated'' \<and> str_includes m ''search queries'')"
    and "\<not> (str_includes m ''Executed'' \<and> str_includes m ''web searches'')"
    and "\<not> str_includes m ''Created learning path with''"
    and "\<not> (str_includes m ''Planned'' \<and> str_includes m ''submodules'')"
    and "\<not> (str_includes m ''Organized'' \<and> str_includes m ''submodules into'')"
    and "str_includes m ''Processing submodule batch''"
  shows "calculateProgress updates =
           Inr (case batchMatch m of
                  Some ds \<Rightarrow> 60 + min (30 * (of_nat (parseInt ds) / 10)) 30
                | None \<Rightarrow> 70)"
  using assms by (auto simp add: calculateProgress_def)

lemma calculateProgress_batch_3:
  "calculateProgress [progress_msg ''Processing submodule batch 3 with 2 submodules'']
     = Inr 69"
  by (simp add: calculateProgress_def progress_msg_def batch_at_def digit_def parseInt_def
      Let_def)

text \<open>
  With the list captured by the first \<open>handleSubmit\<close> of a page (the empty list), the
  percentage set by every message is 10.
\<close>

lemma stale_progress:
  "progressPercentage (snd (progress_onMessage [] d st)) = Some 10"
  by (simp add: progress_onMessage_def calculateProgress_def Let_def)

text \<open>
  C8 fails on the code: the callback applies \<open>calculateProgress\<close> to the list its
  closure captured, not to the sequence that holds the new message. On a fresh page,
  \<open>handleSubmit\<close> captures the empty list; the message \<open>Finalized learning path\<close> is
  recorded, the percentage stays 10, and \<open>calculateProgress\<close> of the recorded sequence
  would be 95.
\<close>

theorem progress_computed_from_stale_updates:
  "handleSubmit initial_page = ([], \<lparr>progressUpdates = [], progressPercentage = Some 10\<rparr>) \<and>
   progress_onMessage [] (progress_msg ''Finalized learning path'')
       \<lparr>progressUpdates = [], progressPercentage = Some 10\<rparr>
     = (None, \<lparr>progressUpdates = [progress_msg ''Finalized learning path''],
               progressPercentage = Some 10\<rparr>) \<and>
   calculateProgress [progress_msg ''Finalized learning path''] = Inr 95"
  by (simp add: handleSubmit_def initial_page_def progress_onMessage_def appendUpdate_def
      calculateProgress_def progress_msg_def Let_def)

section \<open>Properties of the token refresh\<close>

lemma subscribe_all:
  "isRefreshingToken s \<Longrightarrow> distinct rs \<Longrightarrow> set rs \<inter> retried s = {} \<Longrightarrow>
   \<forall>r\<in>set rs. \<not> str_includes (url r) ''/auth/refresh'' \<Longrightarrow>
   foldl auth_step s (map (\<lambda>r. Unauthorized r (url r)) rs) =
     s\<lparr>retried := retried s \<union> set rs, refreshSubscribers := refreshSubscribers s @ rs\<rparr>"
proof (induction rs arbitrary: s)
  case Nil
  then show ?case by simp
next
  case (Cons r rs)
  define u where "u = s\<lparr>retried := insert r (retried s), refreshSubscribers := refreshSubscribers s @ [r]\<rparr>"
  have S: "auth_step s (Unauthorized r (url r)) = u"
    using Cons.prems by (simp add: on401_def refreshAuthToken_def u_def)
  have "foldl auth_step u (map (\<lambda>r. Unauthorized r (url r)) rs) =
     u\<lparr>retried := retried u \<union> set rs, refreshSubscribers := refreshSubscribers u @ rs\<rparr>"
    using Cons.prems by (intro Cons.IH) (auto simp: u_def)
  moreover have "foldl auth_step s (map (\<lambda>r. Unauthorized r (url r)) (r # rs)) =
     foldl auth_step u (map (\<lambda>r. Unauthorized r (url r)) rs)"
    using S by (simp del: auth_step.simps)
  ultimately show ?case by (simp add: u_def)
qed

lemma replay_all:
  "tok \<noteq> [] \<Longrightarrow>
   foldl (\<lambda>t q. settle tok q t) s qs =
     s\<lparr>authToken := (if qs = [] then authToken s else Some tok),
       requests := requests s @ map (\<lambda>q. Replay q tok) qs\<rparr>"
  by (induction qs arbitrary: s) (simp_all add: settle_def replay_def setAuthToken_def)


text \<open>
  C5. From a state with no refresh in flight, let any number of distinct requests
  (not yet retried, none of them the refresh call) receive a 401 before the refresh
  answers. The first one posts the refresh; each of the others finds
  \<open>isRefreshingToken\<close> set and subscribes, so exactly one \<open>POST /auth/refresh\<close> is made.
  When it resolves with a (non-empty) access token, every one of the requests is
  replayed exactly once with the new token, and nothing is rejected.
\<close>

theorem single_refresh_for_concurrent_401:
  assumes "\<not> isRefreshingToken s" and "refreshing s = []" and "refreshSubscribers s = []"
    and "distinct (r # rs)" and "set (r # rs) \<inter> retried s = {}"
    and "\<forall>q\<in>set (r # rs). \<not> str_includes (url q) ''/auth/refresh''"
    and "tok \<noteq> []"
  shows "let w = foldl auth_step s (map (\<lambda>q. Unauthorized q (url q)) (r # rs));
             t = auth_step w (RefreshSucceeded tok)
         in requests w = requests s @ [PostRefresh] \<and> isRefreshingToken w \<and>
            refreshSubscribers w = rs \<and>
            requests t = requests s @ PostRefresh # map (\<lambda>q. Replay q tok) (r # rs) \<and>
            count_list (requests t) PostRefresh = Suc (count_list (requests s) PostRefresh) \<and>
            authToken t = Some tok \<and> \<not> isRefreshingToken t \<and> refreshSubscribers t = [] \<and>
            rejected t = rejected s"
proof -
  define u where "u = s\<lparr>retried := insert r (retried s), isRefreshingToken := True,
                         refreshing := [r], requests := requests s @ [PostRefresh]\<rparr>"
  define w where "w = foldl auth_step s (map (\<lambda>q. Unauthorized q (url q)) (r # rs))"
  have U: "auth_step s (Unauthorized r (url r)) = u"
    using assms by (simp add: on401_def refreshAuthToken_def u_def)
  have "w = foldl auth_step u (map (\<lambda>q. Unauthorized q (url q)) rs)"
    using U by (simp add: w_def del: auth_step.simps)
  also have "\<dots> = u\<lparr>retried := retried u \<union> set rs,
                       refreshSubscribers := refreshSubscribers u @ rs\<rparr>"
    using assms by (intro subscribe_all) (auto simp: u_def)
  finally have W: "w = u\<lparr>retried := retried u \<union> set rs, refreshSubscribers := rs\<rparr>"
    using assms(3) by (simp add: u_def)
  have T: "auth_step w (RefreshSucceeded tok) =
           foldl (\<lambda>t q. settle tok q t)
             (replay tok r ((setAuthToken tok w)
                \<lparr>authItem := (case authItem w of None \<Rightarrow> None | Some a \<Rightarrow> Some tok),
                 refreshSubscribers := [], isRefreshingToken := False, refreshing := []\<rparr>)) rs"
    by (simp add: refresh_resolved_def W u_def Let_def)
  have C: "count_list (map (\<lambda>q. Replay q tok) qs) PostRefresh = 0" for qs
    by (induction qs) simp_all
  show ?thesis
    unfolding w_def[symmetric] Let_def T replay_all[OF assms(7)]
    by (simp add: W u_def replay_def setAuthToken_def C)
qed

theorem single_refresh_for_concurrent_401_witness:
  "requests (foldl auth_step (idle (Some ''old''))
      (map (\<lambda>q. Unauthorized q ''/learning-paths'') [0, 1, 2, 3, 4]))
     = [PostRefresh] \<and>
   requests (auth_step (foldl auth_step (idle (Some ''old''))
      (map (\<lambda>q. Unauthorized q ''/learning-paths'') [0, 1, 2, 3, 4])) (RefreshSucceeded ''new''))
     = [PostRefresh, Replay 0 ''new'', Replay 1 ''new'', Replay 2 ''new'', Replay 3 ''new'',
        Replay 4 ''new'']"
  using single_refresh_for_concurrent_401 [of "idle (Some ''old'')" 0 "[1, 2, 3, 4]"
      "\<lambda>q. ''/learning-paths''" "''new''"]
  by (simp add: idle_def Let_def)

section \<open>Properties of the history facade\<close>

lemma keeps_refl: "keeps s s"
  by (simp add: keeps_def)

lemma keeps_trans: "keeps s t \<Longrightarrow> keeps t u \<Longrightarrow> keeps s u"
  by (auto simp: keeps_def)

lemma keeps_foldl:
  assumes "\<And>t q. keeps t (f t q)"
  shows "keeps s (foldl f s qs)"
proof (induction qs arbitrary: s)
  case Nil
  show ?case by (simp add: keeps_refl)
next
  case (Cons q qs)
  have "keeps s (f s q)" by (rule assms)
  moreover have "keeps (f s q) (foldl f (f s q) qs)" by (rule Cons.IH)
  ultimately show ?case by (simp add: keeps_trans)
qed

lemma keeps_replay: "keeps s (replay tok q s)"
  by (simp add: keeps_def replay_def setAuthToken_def)

lemma keeps_give_up: "keeps s (give_up q s)"
  by (simp add: keeps_def give_up_def clearAuthToken_def)

lemma keeps_settle: "keeps s (settle tok q s)"
  by (simp add: settle_def keeps_replay keeps_give_up)

lemma keeps_auth_step: "keeps s (auth_step s ev)"
proof (cases ev)
  case (Unauthorized r url)
  then show ?thesis by (simp add: keeps_def on401_def refreshAuthToken_def)
next
  case (RefreshSucceeded tok)
  show ?thesis
  proof (cases "refreshing s")
    case Nil
    then show ?thesis using RefreshSucceeded by (simp add: refresh_resolved_def keeps_refl)
  next
    case (Cons owner rest)
    define s0 where "s0 = (setAuthToken tok s)
                     \<lparr>authItem := (case authItem s of None \<Rightarrow> None | Some a \<Rightarrow> Some tok),
                      refreshSubscribers := [], isRefreshingToken := False,
                      refreshing := rest\<rparr>"
    have A: "auth_step s ev =
             foldl (\<lambda>t q. settle tok q t) (replay tok owner s0) (refreshSubscribers s)"
      using RefreshSucceeded Cons by (simp add: refresh_resolved_def Let_def s0_def)
    have "keeps s s0" by (simp add: keeps_def s0_def setAuthToken_def)
    moreover have "keeps s0 (replay tok owner s0)" by (rule keeps_replay)
    moreover have "keeps (replay tok owner s0)
        (foldl (\<lambda>t q. settle tok q t) (replay tok owner s0) (refreshSubscribers s))"
      by (rule keeps_foldl) (rule keeps_settle)
    ultimately show ?thesis unfolding A by (blast intro: keeps_trans)
  qed
next
  case RefreshFailed
  show ?thesis
  proof (cases "refreshing s")
    case Nil
    then show ?thesis using RefreshFailed by (simp add: refresh_rejected_def keeps_refl)
  next
    case (Cons owner rest)
    define s0 where "s0 = s\<lparr>refreshSubscribers := [], isRefreshingToken := False,
                            refreshing := rest\<rparr>"
    have A: "auth_step s ev = foldl (\<lambda>t q. give_up q t) s0 (owner # refreshSubscribers s)"
      using RefreshFailed Cons by (simp add: refresh_rejected_def s0_def)
    have "keeps s s0" by (simp add: keeps_def s0_def)
    moreover have "keeps s0 (foldl (\<lambda>t q. give_up q t) s0 (owner # refreshSubscribers s))"
      by (rule keeps_foldl) (rule keeps_give_up)
    ultimately show ?thesis unfolding A by (blast intro: keeps_trans)
  qed
qed

lemma keeps_on401: "keeps s (on401 r url s)"
  using keeps_auth_step[of s "Unauthorized r url"] by simp

lemma keeps_refresh_resolved: "keeps s (refresh_resolved tok s)"
  using keeps_auth_step[of s "RefreshSucceeded tok"] by simp

lemma keeps_refresh_rejected: "keeps s (refresh_rejected s)"
  using keeps_auth_step[of s RefreshFailed] by simp

lemma api_settle_keeps: "keeps s (snd (api_settle c r x s))"
proof -
  define s2 where "s2 = on401 r (url_of c) s"
  have A: "keeps s s2" unfolding s2_def by (rule keeps_on401)
  have B: "keeps s (refresh_rejected s2)"
    using A keeps_refresh_rejected by (rule keeps_trans)
  have C: "keeps s (refresh_resolved tok s2)" for tok
    using A keeps_refresh_resolved by (rule keeps_trans)
  have D: "keeps s (give_up r (refresh_resolved tok s2))" for tok
    using C keeps_give_up by (rule keeps_trans)
  have E: "keeps s (s\<lparr>rejected := rejected s @ [r]\<rparr>)" by (simp add: keeps_def)
  show ?thesis
    using A B C D E keeps_refl[of s]
    by (simp add: api_settle_def Let_def s2_def[symmetric]
        split: reply.splits option.splits)
qed

lemma api_call_keeps:
  "local_calls (snd (api_call c x s)) = local_calls s \<and>
   sessionStorage (snd (api_call c x s)) = sessionStorage s \<and>
   (\<exists>ys. requests (snd (api_call c x s)) = requests s @ c # ys)"
  using api_settle_keeps[of "api_send c s" c "length (requests s)" x]
  by (auto simp: keeps_def api_call_def api_send_def)

lemma api_settle_resolved:
  "answer x = Resolved a \<Longrightarrow> api_settle c r x s = (Resolved a, s)"
  by (simp add: api_settle_def)




lemma api_settle_refreshed:
  assumes "quiet r s" and "\<not> str_includes (url_of c) ''/auth/refresh''"
    and "answer x = Rejected (Status 401)"
    and "refresh_answer x = Some tok" and "replay_answer x = Resolved a"
  shows "api_settle c r x s =
           (Resolved a,
            s\<lparr>retried := insert r (retried s), authToken := Some tok,
              authItem := (case authItem s of None \<Rightarrow> None | Some old \<Rightarrow> Some tok),
              requests := requests s @ [PostRefresh, Replay r tok]\<rparr>)"
  using assms
  by (simp add: api_settle_def Let_def on401_def refreshAuthToken_def quiet_def
      refresh_resolved_def replay_def setAuthToken_def)


lemma local_calls_api_call: "local_calls (snd (api_call c x s)) = local_calls s"
  using api_call_keeps[of c x s] by simp


lemma saveToHistory_authenticated:
  "authenticated s \<Longrightarrow>
   saveToHistory lp src x s =
     (case api_call (PostLearningPath (new_entry lp src)) x s of
        (Resolved path_id, s') \<Rightarrow> (Saved path_id, s')
      | (Rejected e, s') \<Rightarrow> call_local (LocalSave lp src) s')"
  by (simp add: saveToHistory_def saveToHistory_start_def saveToHistory_finish_def
      uninterrupted_def api_call_def)

lemmas facade_defs = saveToHistory_def saveToHistory_start_def saveToHistory_finish_def
  updateHistoryEntry_def updateHistoryEntry_start_def updateHistoryEntry_finish_def
  deleteHistoryEntry_def deleteHistoryEntry_start_def deleteHistoryEntry_finish_def
  getHistoryEntry_def getHistoryEntry_start_def getHistoryEntry_finish_def
  getHistoryPreview_def getHistoryPreview_start_def getHistoryPreview_finish_def
  uninterrupted_def return_local_def call_local_def api_call_def api_send_def api_settle_def
  answers_def fails_def preview_request_def if_truthy_def cached_def cacheTimeMs_def
  on_server_error_def auth_error_def clearAuthToken_def new_entry_def or_else_def

lemmas state_defs = signed_in_def idle_def authenticated_def path0_def preview0_def

text \<open>
  C6 as claimed fails: with an auth token set, \<open>saveToHistory\<close> posts the entry, but
  when there is no response it returns what the local store's \<open>saveToHistory\<close>
  returned, not a server-issued identifier.
\<close>

theorem authenticated_create_can_return_local_result:
  "authenticated signed_in \<and>
   fst (saveToHistory path0 ''generated'' (fails NoResponse) signed_in)
     = FromLocal (LocalSave path0 ''generated'') \<and>
   requests (snd (saveToHistory path0 ''generated'' (fails NoResponse) signed_in))
     = [PostLearningPath (new_entry path0 ''generated'')] \<and>
   local_calls (snd (saveToHistory path0 ''generated'' (fails NoResponse) signed_in))
     = [LocalSave path0 ''generated'']"
  by (simp add: state_defs facade_defs)


text \<open>
  C6 (amended). Without an auth token \<open>saveToHistory\<close> makes no request, calls the
  local store's \<open>saveToHistory\<close> and returns what that returns. With an auth token
  its first request is \<open>POST /learning-paths\<close> carrying the entry: the topic (or
  \<open>Untitled\<close>), the learning path as \<open>path_data\<close>, \<open>favorite\<close> false, no tags, the
  source. When that call resolves with a \<open>path_id\<close> (at once or after a token
  refresh), the result is \<open>{success: true, entry_id: path_id}\<close> and the local store
  is not called; when it is rejected, the local store's \<open>saveToHistory\<close> is called and
  its result returned.
\<close>

theorem saveToHistory_routing:
  "new_entry lp src =
     \<lparr>body_topic = (case topic lp of None \<Rightarrow> ''Untitled''
                     | Some t \<Rightarrow> if t = [] then ''Untitled'' else t),
      path_data = lp, favorite = False, tags = [], source = src\<rparr> \<and>
   (\<not> authenticated s \<longrightarrow>
      saveToHistory lp src x s =
        (FromLocal (LocalSave lp src), s\<lparr>local_calls := local_calls s @ [LocalSave lp src]\<rparr>)) \<and>
   (authenticated s \<longrightarrow>
      take (Suc (length (requests s))) (requests (snd (saveToHistory lp src x s))) =
        requests s @ [PostLearningPath (new_entry lp src)]) \<and>
   (authenticated s \<and> answer x = Resolved path_id \<longrightarrow>
      saveToHistory lp src x s =
        (Saved path_id, s\<lparr>requests := requests s @ [PostLearningPath (new_entry lp src)]\<rparr>)) \<and>
   (authenticated s \<and> fst (api_call (PostLearningPath (new_entry lp src)) x s) = Resolved path_id
      \<longrightarrow> fst (saveToHistory lp src x s) = Saved path_id \<and>
          local_calls (snd (saveToHistory lp src x s)) = local_calls s) \<and>
   (authenticated s \<and> fst (api_call (PostLearningPath (new_entry lp src)) x s) = Rejected e
      \<longrightarrow> fst (saveToHistory lp src x s) = FromLocal (LocalSave lp src) \<and>
          local_calls (snd (saveToHistory lp src x s)) = local_calls s @ [LocalSave lp src])"
proof (intro conjI impI)
  show "new_entry lp src =
     \<lparr>body_topic = (case topic lp of None \<Rightarrow> ''Untitled''
                     | Some t \<Rightarrow> if t = [] then ''Untitled'' else t),
      path_data = lp, favorite = False, tags = [], source = src\<rparr>"
    by (simp add: new_entry_def or_else_def)
  show "saveToHistory lp src x s =
        (FromLocal (LocalSave lp src), s\<lparr>local_calls := local_calls s @ [LocalSave lp src]\<rparr>)"
    if "\<not> authenticated s"
    using that
    by (simp add: saveToHistory_def saveToHistory_start_def uninterrupted_def
        return_local_def call_local_def)
  define c where "c = PostLearningPath (new_entry lp src)"
  obtain rep s' where R: "api_call c x s = (rep, s')" by (cases "api_call c x s")
  obtain ys where K: "local_calls s' = local_calls s" "requests s' = requests s @ c # ys"
    using api_call_keeps[of c x s] R by auto
  show "take (Suc (length (requests s))) (requests (snd (saveToHistory lp src x s))) =
        requests s @ [PostLearningPath (new_entry lp src)]"
    if "authenticated s"
    using that R K
    by (cases rep) (simp_all add: saveToHistory_authenticated c_def[symmetric] call_local_def)
  show "saveToHistory lp src x s =
        (Saved path_id, s\<lparr>requests := requests s @ [PostLearningPath (new_entry lp src)]\<rparr>)"
    if "authenticated s \<and> answer x = Resolved path_id"
    using that
    by (simp add: saveToHistory_authenticated api_call_def api_settle_resolved api_send_def)
  show "fst (saveToHistory lp src x s) = Saved path_id"
    if "authenticated s \<and> fst (api_call (PostLearningPath (new_entry lp src)) x s) = Resolved path_id"
    using that R by (simp add: saveToHistory_authenticated c_def[symmetric])
  show "local_calls (snd (saveToHistory lp src x s)) = local_calls s"
    if "authenticated s \<and> fst (api_call (PostLearningPath (new_entry lp src)) x s) = Resolved path_id"
    using that R K by (simp add: saveToHistory_authenticated c_def[symmetric])
  show "fst (saveToHistory lp src x s) = FromLocal (LocalSave lp src)"
    if "authenticated s \<and> fst (api_call (PostLearningPath (new_entry lp src)) x s) = Rejected e"
    using that R by (simp add: saveToHistory_authenticated c_def[symmetric] call_local_def)
  show "local_calls (snd (saveToHistory lp src x s)) = local_calls s @ [LocalSave lp src]"
    if "authenticated s \<and> fst (api_call (PostLearningPath (new_entry lp src)) x s) = Rejected e"
    using that R K by (simp add: saveToHistory_authenticated c_def[symmetric] call_local_def)
qed

theorem saveToHistory_routing_witness:
  "\<not> authenticated (idle None) \<and>
   saveToHistory path0 ''generated'' (fails NoResponse) (idle None)
     = (FromLocal (LocalSave path0 ''generated''),
        (idle None)\<lparr>local_calls := [LocalSave path0 ''generated'']\<rparr>) \<and>
   authenticated signed_in \<and>
   saveToHistory path0 ''generated'' (answers ''path-17'') signed_in
     = (Saved ''path-17'',
        signed_in\<lparr>requests :=
          [PostLearningPath \<lparr>body_topic = ''Rust'', path_data = path0, favorite = False,
                             tags = [], source = ''generated''\<rparr>]\<rparr>) \<and>
   fst (saveToHistory path0 ''generated'' (fails (Status 503)) signed_in)
     = FromLocal (LocalSave path0 ''generated'') \<and>
   saveToHistory path0 ''generated''
       (Exchange (Rejected (Status 401)) (Some ''new'') (Resolved ''path-18'')) signed_in
     = (Saved ''path-18'',
        signed_in\<lparr>retried := {0}, authToken := Some ''new'', authItem := Some ''new'',
          requests := [PostLearningPath (new_entry path0 ''generated''), PostRefresh,
                       Replay 0 ''new'']\<rparr>)"
  using saveToHistory_routing [where s = "idle None" and lp = path0 and src = "''generated''"
      and x = "fails NoResponse"]
    saveToHistory_routing [where s = signed_in and lp = path0 and src = "''generated''"
      and x = "Exchange (Rejected (Status 401)) (Some ''new'') (Resolved ''path-18'')"
      and path_id = "''path-18''"]
    saveToHistory_routing [where s = signed_in and lp = path0 and src = "''generated''"
      and x = "answers ''path-17''" and path_id = "''path-17''"]
    saveToHistory_routing [where s = signed_in and lp = path0 and src = "''generated''"
      and x = "fails (Status 503)" and e = "Status 503"]
  by (simp add: state_defs facade_defs on401_def refreshAuthToken_def refresh_resolved_def
      replay_def setAuthToken_def Let_def)
















text \<open>
  C9 as claimed fails. A fetch that fails (here with status 500) stores nothing, so a
  second call one second later, with the same key, makes a second request. And a
  second call that starts while the first still awaits its response finds no entry
  either: both have sent their request.
\<close>

theorem two_preview_calls_two_requests:
  "authenticated signed_in \<and>
   requests (snd (getHistoryPreview ''creation_date'' None None 2000 2200 True (answers (Some preview0))
               (snd (getHistoryPreview ''creation_date'' None None 1000 1200 True
                       (fails (Status 500)) signed_in))))
     = [GetLearningPaths ''creation_date'' None None,
        GetLearningPaths ''creation_date'' None None] \<and>
   getHistoryPreview_start ''creation_date'' None None 1100
       (snd (getHistoryPreview_start ''creation_date'' None None 1000 signed_in))
     = (None, signed_in\<lparr>requests := [GetLearningPaths ''creation_date'' None None,
                                        GetLearningPaths ''creation_date'' None None]\<rparr>)"
  by (simp add: state_defs facade_defs)

lemma cached_None_iff:
  "cached key now s = None \<longleftrightarrow>
     sessionStorage s key = None \<or>
     (\<exists>d ts. sessionStorage s key = Some (d, ts) \<and> cacheTimeMs \<le> now - ts)"
  by (auto simp: cached_def split: option.splits)

lemma preview_hit:
  assumes "authenticated s" and "sessionStorage s (cacheKey sortBy f q) = Some (d, ts)"
    and "now1 - ts < 60000"
  shows "getHistoryPreview_start sortBy f q now1 s = (Some (PreviewData d), s)"
    and "getHistoryPreview sortBy f q now1 now2 canStore x s = (PreviewData d, s)"
  using assms
  by (simp_all add: getHistoryPreview_def getHistoryPreview_start_def uninterrupted_def
      cached_def cacheTimeMs_def)

lemma preview_miss:
  assumes "authenticated s"
    and "sessionStorage s (cacheKey sortBy f q) = None \<or>
         (\<exists>d ts. sessionStorage s (cacheKey sortBy f q) = Some (d, ts) \<and> 60000 \<le> now1 - ts)"
  shows "getHistoryPreview_start sortBy f q now1 s =
           (None, s\<lparr>requests := requests s @
                      [GetLearningPaths sortBy (if_truthy f) (if_truthy q)]\<rparr>)"
proof -
  have "cached (cacheKey sortBy f q) now1 s = None"
    using assms(2) by (simp add: cached_None_iff cacheTimeMs_def)
  then show ?thesis using assms(1)
    by (simp add: getHistoryPreview_start_def api_send_def preview_request_def)
qed

lemma preview_store:
  assumes "answer x = Resolved (Some d')"
  shows "getHistoryPreview_finish sortBy f q r now2 True x u =
           (PreviewData d',
            u\<lparr>sessionStorage := (sessionStorage u)(cacheKey sortBy f q \<mapsto> (d', now2))\<rparr>)"
  using assms by (simp add: getHistoryPreview_finish_def api_settle_resolved)

lemma preview_not_stored:
  shows "answer x = Resolved (Some d') \<Longrightarrow>
           getHistoryPreview_finish sortBy f q r now2 False x u = (PreviewData d', u)"
    and "answer x = Resolved None \<Longrightarrow>
           getHistoryPreview_finish sortBy f q r now2 canStore x u
             = (PreviewData \<lparr>entries = [], total = 0\<rparr>, u)"
  by (simp_all add: getHistoryPreview_finish_def api_settle_resolved)

text \<open>
  C9 (amended). The cache key is \<open>history_preview_\<close>, \<open>sortBy\<close>, the filter and the
  search term (\<open>null\<close> for a missing or empty one), joined by underscores. Under an
  auth token: a call that finds under its key an entry younger than 60000 ms returns
  the cached payload, sends no request and changes nothing. A call that finds no
  entry, or one at least 60000 ms old, sends the list request. When a response with
  entries arrives and the storage accepts the write, the entry under the key becomes
  the payload with the time of the write; when the storage refuses the write the
  payload is returned and the cache is unchanged, and a response without entries is
  answered with an empty list and is not cached. So when the first call sends its request
  and its response with entries is stored before a second call with the same key
  starts, less than 60000 ms after the first started, the second call is answered
  from the cache and the two calls make one request.
\<close>

theorem preview_cache:
  assumes "authenticated s"
  shows "cacheKey sortBy f q =
           ''history_preview_'' @ sortBy @ ''_'' @
           (case f of None \<Rightarrow> ''null'' | Some v \<Rightarrow> if v = [] then ''null'' else v) @ ''_'' @
           (case q of None \<Rightarrow> ''null'' | Some v \<Rightarrow> if v = [] then ''null'' else v) \<and>
         (sessionStorage s (cacheKey sortBy f q) = Some (d, ts) \<and> now1 - ts < 60000 \<longrightarrow>
            getHistoryPreview_start sortBy f q now1 s = (Some (PreviewData d), s) \<and>
            getHistoryPreview sortBy f q now1 now2 canStore x s = (PreviewData d, s)) \<and>
         (sessionStorage s (cacheKey sortBy f q) = None \<or>
          (\<exists>d ts. sessionStorage s (cacheKey sortBy f q) = Some (d, ts) \<and> 60000 \<le> now1 - ts)
            \<longrightarrow>
            getHistoryPreview_start sortBy f q now1 s =
              (None, s\<lparr>requests := requests s @
                         [GetLearningPaths sortBy (if_truthy f) (if_truthy q)]\<rparr>) \<and>
            (answer x = Resolved (Some d') \<and> now1 \<le> now2 \<and> now2 \<le> t \<and> t - now1 < 60000
               \<longrightarrow>
               getHistoryPreview sortBy f q now1 now2 True x s =
                 (PreviewData d',
                  s\<lparr>requests := requests s @
                        [GetLearningPaths sortBy (if_truthy f) (if_truthy q)],
                    sessionStorage :=
                      (sessionStorage s)(cacheKey sortBy f q \<mapsto> (d', now2))\<rparr>) \<and>
               getHistoryPreview sortBy f q t t' canStore y
                   (snd (getHistoryPreview sortBy f q now1 now2 True x s))
                 = (PreviewData d', snd (getHistoryPreview sortBy f q now1 now2 True x s)))) \<and>
         (answer x = Resolved (Some d') \<longrightarrow>
            getHistoryPreview_finish sortBy f q r now2 True x u =
              (PreviewData d',
               u\<lparr>sessionStorage := (sessionStorage u)(cacheKey sortBy f q \<mapsto> (d', now2))\<rparr>) \<and>
            getHistoryPreview_finish sortBy f q r now2 False x u = (PreviewData d', u)) \<and>
         (answer x = Resolved None \<longrightarrow>
            getHistoryPreview_finish sortBy f q r now2 canStore x u
              = (PreviewData \<lparr>entries = [], total = 0\<rparr>, u))"
proof (intro conjI impI)
  show "cacheKey sortBy f q =
           ''history_preview_'' @ sortBy @ ''_'' @
           (case f of None \<Rightarrow> ''null'' | Some v \<Rightarrow> if v = [] then ''null'' else v) @ ''_'' @
           (case q of None \<Rightarrow> ''null'' | Some v \<Rightarrow> if v = [] then ''null'' else v)"
    by (simp add: cacheKey_def or_else_def)
next
  assume H: "sessionStorage s (cacheKey sortBy f q) = Some (d, ts) \<and> now1 - ts < 60000"
  then have H1: "sessionStorage s (cacheKey sortBy f q) = Some (d, ts)"
    and H2: "now1 - ts < 60000" by blast+
  show "getHistoryPreview_start sortBy f q now1 s = (Some (PreviewData d), s)"
    using assms H1 H2 by (rule preview_hit(1))
  show "getHistoryPreview sortBy f q now1 now2 canStore x s = (PreviewData d, s)"
    using assms H1 H2 by (rule preview_hit(2))
next
  assume M: "sessionStorage s (cacheKey sortBy f q) = None \<or>
          (\<exists>d ts. sessionStorage s (cacheKey sortBy f q) = Some (d, ts) \<and> 60000 \<le> now1 - ts)"
  show S: "getHistoryPreview_start sortBy f q now1 s =
              (None, s\<lparr>requests := requests s @
                         [GetLearningPaths sortBy (if_truthy f) (if_truthy q)]\<rparr>)"
    using assms M by (rule preview_miss)
  assume A: "answer x = Resolved (Some d') \<and> now1 \<le> now2 \<and> now2 \<le> t \<and> t - now1 < 60000"
  show F: "getHistoryPreview sortBy f q now1 now2 True x s =
                 (PreviewData d',
                  s\<lparr>requests := requests s @
                        [GetLearningPaths sortBy (if_truthy f) (if_truthy q)],
                    sessionStorage :=
                      (sessionStorage s)(cacheKey sortBy f q \<mapsto> (d', now2))\<rparr>)"
    using A by (simp add: getHistoryPreview_def S uninterrupted_def preview_store)
  define s1 where "s1 = snd (getHistoryPreview sortBy f q now1 now2 True x s)"
  have A1: "authenticated s1" using assms by (simp add: s1_def F authenticated_def)
  have C1: "sessionStorage s1 (cacheKey sortBy f q) = Some (d', now2)"
    by (simp add: s1_def F)
  have T: "t - now2 < 60000" using A by simp
  show "getHistoryPreview sortBy f q t t' canStore y
                   (snd (getHistoryPreview sortBy f q now1 now2 True x s))
                 = (PreviewData d', snd (getHistoryPreview sortBy f q now1 now2 True x s))"
    unfolding s1_def[symmetric] using A1 C1 T by (rule preview_hit(2))
next
  assume R: "answer x = Resolved (Some d')"
  then show "getHistoryPreview_finish sortBy f q r now2 True x u =
              (PreviewData d',
               u\<lparr>sessionStorage := (sessionStorage u)(cacheKey sortBy f q \<mapsto> (d', now2))\<rparr>)"
    by (rule preview_store)
  show "getHistoryPreview_finish sortBy f q r now2 False x u = (PreviewData d', u)"
    using R by (rule preview_not_stored(1))
next
  assume "answer x = Resolved None"
  then show "getHistoryPreview_finish sortBy f q r now2 canStore x u
              = (PreviewData \<lparr>entries = [], total = 0\<rparr>, u)"
    by (rule preview_not_stored(2))
qed

theorem preview_cache_witness:
  "authenticated signed_in \<and>
   sessionStorage signed_in (cacheKey ''creation_date'' None None) = None \<and>
   answer (answers (Some preview0)) = Resolved (Some preview0) \<and>
   (1000 :: int) \<le> 1200 \<and> (1200 :: int) \<le> 30000 \<and> (30000 :: int) - 1000 < 60000 \<and>
   fst (getHistoryPreview ''creation_date'' None None 30000 30100 True (fails NoResponse)
          (snd (getHistoryPreview ''creation_date'' None None 1000 1200 True
                  (answers (Some preview0)) signed_in)))
     = PreviewData preview0 \<and>
   requests (snd (getHistoryPreview ''creation_date'' None None 30000 30100 True (fails NoResponse)
          (snd (getHistoryPreview ''creation_date'' None None 1000 1200 True
                  (answers (Some preview0)) signed_in))))
     = [GetLearningPaths ''creation_date'' None None] \<and>
   authenticated (cached_at 1200) \<and>
   sessionStorage (cached_at 1200) (cacheKey ''creation_date'' None None)
     = Some (preview0, 1200) \<and>
   getHistoryPreview ''creation_date'' None None 30000 30100 True (fails NoResponse)
       (cached_at 1200)
     = (PreviewData preview0, cached_at 1200) \<and>
   cacheKey ''date'' None (Some ''rust'') = ''history_preview_date_null_rust''"
  using preview_cache [where s = signed_in and sortBy = "''creation_date''" and f = None
      and q = None and ?now1.0 = 1000 and ?now2.0 = 1200 and d' = preview0 and t = 30000
      and t' = 30100 and canStore = True and x = "answers (Some preview0)"
      and y = "fails NoResponse"]
    preview_cache [where s = "cached_at 1200" and sortBy = "''creation_date''" and f = None
      and q = None and ?now1.0 = 30000 and ?now2.0 = 30100 and d = preview0 and ts = 1200
      and canStore = True and x = "fails NoResponse"]
    preview_cache [where s = signed_in and sortBy = "''date''" and f = None
      and q = "Some ''rust''"]
  by (simp add: state_defs facade_defs cached_at_def)

end
